theory Spec2Isabelle
  imports Complex_Main "HOL-Library.Sublist"
begin

section \<open>JavaScript numbers\<close>

text \<open>
  The distance code of \<^verbatim>\<open>new.js\<close> and \<^verbatim>\<open>script.js\<close> works on JavaScript numbers.
  A number is modelled as a real or \<open>NaN\<close>; the operators propagate \<open>NaN\<close> as IEEE 754
  does and every comparison with \<open>NaN\<close> is false.  In this first model finite values
  are computed over the reals: the two infinities and the sign of zero are not
  represented, and neither is the rounding of doubles, which a later section adds
  for the distance function.  The tracking code only compares the distance with its
  thresholds, and what is proved of it below holds for every distance; what depends on
  the rounding of the distance itself is proved on the model in doubles.  A value that
  may also be \<^verbatim>\<open>null\<close> (the destination fields of \<^verbatim>\<open>AppState\<close> before geocoding) is a
  \<open>jsval\<close>; arithmetic coerces it with \<open>ToNumber\<close>, which sends \<^verbatim>\<open>null\<close> to \<open>0\<close>.
\<close>

datatype jsnum = NaN | Num real

datatype jsval = Null | Number jsnum

fun ToNumber :: "jsval \<Rightarrow> jsnum" where
  "ToNumber Null = Num 0"
| "ToNumber (Number n) = n"

fun lift1 :: "(real \<Rightarrow> real) \<Rightarrow> jsnum \<Rightarrow> jsnum" where
  "lift1 f (Num x) = Num (f x)"
| "lift1 f NaN = NaN"

fun lift2 :: "(real \<Rightarrow> real \<Rightarrow> real) \<Rightarrow> jsnum \<Rightarrow> jsnum \<Rightarrow> jsnum" where
  "lift2 f (Num x) (Num y) = Num (f x y)"
| "lift2 f _ _ = NaN"

definition jadd :: "jsnum \<Rightarrow> jsnum \<Rightarrow> jsnum" where
  "jadd = lift2 (+)"

definition jsub :: "jsnum \<Rightarrow> jsnum \<Rightarrow> jsnum" where
  "jsub = lift2 (-)"

definition jmul :: "jsnum \<Rightarrow> jsnum \<Rightarrow> jsnum" where
  "jmul = lift2 (*)"

text \<open>The source only ever divides by the non-zero constants \<open>2\<close> and \<open>180\<close>.\<close>

definition jdiv :: "jsnum \<Rightarrow> jsnum \<Rightarrow> jsnum" where
  "jdiv = lift2 (/)"

definition jsq :: "jsnum \<Rightarrow> jsnum" where
  \<comment> \<open>\<^verbatim>\<open>x ** 2\<close>\<close>
  "jsq = lift1 (\<lambda>x. x\<^sup>2)"

definition Math_sin :: "jsnum \<Rightarrow> jsnum" where
  "Math_sin = lift1 sin"

definition Math_cos :: "jsnum \<Rightarrow> jsnum" where
  "Math_cos = lift1 cos"

fun Math_sqrt :: "jsnum \<Rightarrow> jsnum" where
  \<comment> \<open>\<^verbatim>\<open>Math.sqrt\<close> of a negative number is \<open>NaN\<close>\<close>
  "Math_sqrt (Num x) = (if x < 0 then NaN else Num (sqrt x))"
| "Math_sqrt NaN = NaN"

definition atan2 :: "real \<Rightarrow> real \<Rightarrow> real" where
  \<comment> \<open>the angle of the point \<open>(x, y)\<close>, in \<open>(-\<pi>, \<pi>]\<close>\<close>
  "atan2 y x =
     (if 0 < x then arctan (y / x)
      else if x < 0 then (if 0 \<le> y then arctan (y / x) + pi else arctan (y / x) - pi)
      else if 0 < y then pi / 2
      else if y < 0 then - (pi / 2)
      else 0)"

definition Math_atan2 :: "jsnum \<Rightarrow> jsnum \<Rightarrow> jsnum" where
  "Math_atan2 = lift2 atan2"

definition jlt :: "jsnum \<Rightarrow> jsnum \<Rightarrow> bool" where
  \<comment> \<open>\<^verbatim>\<open>a < b\<close>\<close>
  "jlt a b = (case (a, b) of (Num x, Num y) \<Rightarrow> x < y | _ \<Rightarrow> False)"

definition Math_PI :: jsnum where
  "Math_PI = Num pi"

section \<open>Utils: the haversine distance\<close>

text \<open>
  \<^verbatim>\<open>Utils.deg2rad\<close> and \<^verbatim>\<open>Utils.haversine\<close> of \<^verbatim>\<open>new.js\<close>; the functions
  \<^verbatim>\<open>deg2rad\<close> and \<^verbatim>\<open>haversine\<close> of \<^verbatim>\<open>script.js\<close> have the same bodies.
\<close>

definition deg2rad :: "jsval \<Rightarrow> jsnum" where
  "deg2rad deg = jmul (ToNumber deg) (jdiv Math_PI (Num 180))"

definition haversine :: "jsval \<Rightarrow> jsval \<Rightarrow> jsval \<Rightarrow> jsval \<Rightarrow> jsnum" where
  "haversine lat1 lon1 lat2 lon2 =
     (let R = Num 6371;
          dLat = deg2rad (Number (jsub (ToNumber lat2) (ToNumber lat1)));
          dLon = deg2rad (Number (jsub (ToNumber lon2) (ToNumber lon1)));
          a = jadd (jsq (Math_sin (jdiv dLat (Num 2))))
                (jmul (jmul (Math_cos (deg2rad lat1)) (Math_cos (deg2rad lat2)))
                   (jsq (Math_sin (jdiv dLon (Num 2)))));
          c = jmul (Num 2) (Math_atan2 (Math_sqrt a) (Math_sqrt (jsub (Num 1) a)))
      in jmul R c)"


section \<open>Configuration\<close>

text \<open>The constants of \<^verbatim>\<open>CONFIG\<close> that the tracking code reads.\<close>

definition distances_arrived :: jsnum where
  \<comment> \<open>the double that the literal \<^verbatim>\<open>0.3\<close> denotes, a little below three tenths\<close>
  "distances_arrived = Num (5404319552844595 / 2 ^ 54)"

definition distances_close :: jsnum where
  "distances_close = Num (75 / 100)"

definition distances_near :: jsnum where
  "distances_near = Num 1"

definition distances_approaching :: jsnum where
  "distances_approaching = Num 2"

definition durations_short :: nat where
  "durations_short = 2000"

definition durations_medium :: nat where
  "durations_medium = 4000"

definition durations_persistent :: nat where
  "durations_persistent = 10000"

definition maxTrips :: nat where
  "maxTrips = 100"

section \<open>State and observable events\<close>

datatype ntype = Success | Error | Warning | Info

text \<open>
  Every effect on the outside world is recorded, in order, as an event: the four channels
  of \<^verbatim>\<open>NotificationSystem.show\<close> (each event is the call of the channel's method; a
  missing permission or API makes the method itself do nothing), the writes of the
  notified flags, the write of the trip log, and the calls of the geolocation and
  wake-lock APIs.  \<open>AlertBox\<close> and \<open>AlarmPlay\<close> are the two effects of \<^verbatim>\<open>notify\<close> in
  \<^verbatim>\<open>script.js\<close>.
\<close>

datatype event =
    InApp string ntype nat
  | Native string ntype
  | Vibrate ntype
  | PlaySound
  | SetNotified string
  | StoreTrips
  | WatchPosition nat
  | ClearWatch nat
  | ReleaseWakeLock
  | AlertBox string
  | AlarmPlay

text \<open>
  A record of the trip log.  The three date strings of the source (\<^verbatim>\<open>timestamp\<close>,
  \<^verbatim>\<open>date\<close>, \<^verbatim>\<open>time\<close>) are all renderings of the clock and are kept as the clock value.
\<close>

record trip =
  trip_id :: string
  trip_destination :: "string option"
  trip_distance :: jsnum
  trip_duration :: int
  trip_timestamp :: int

text \<open>
  The state the tracking code reads and writes: the fields of \<^verbatim>\<open>AppState\<close> (the map
  widgets left out), the wake lock held by the notification system, the watches
  registered with \<^verbatim>\<open>navigator.geolocation\<close>, the parsed \<^verbatim>\<open>tripHistory\<close> item of
  local storage (an absent item is the empty list), the \<^verbatim>\<open>destination\<close> item of session
  storage, and the events so far.  Times are milliseconds.
\<close>

record world =
  destLat :: jsval
  destLng :: jsval
  notified :: "string \<rightharpoonup> bool"
  watchId :: "nat option"
  isTracking :: bool
  trackingStartTime :: "int option"
  wakeLock :: bool
  watches :: "nat set"
  tripHistory :: "trip list"
  destination :: "string option"
  trace :: "event list"

definition AppState_new :: "bool \<Rightarrow> trip list \<Rightarrow> string option \<Rightarrow> world" where
  \<comment> \<open>the constructor of \<^verbatim>\<open>AppState\<close>, in an environment with the given wake lock,
      stored trips and stored destination\<close>
  "AppState_new wl trips dest =
     \<lparr>destLat = Null, destLng = Null, notified = Map.empty, watchId = None,
      isTracking = False, trackingStartTime = None, wakeLock = wl, watches = {},
      tripHistory = trips, destination = dest, trace = []\<rparr>"

definition emit :: "event list \<Rightarrow> world \<Rightarrow> world" where
  "emit es w = w\<lparr>trace := trace w @ es\<rparr>"

definition flagged :: "(string \<rightharpoonup> bool) \<Rightarrow> string \<Rightarrow> bool" where
  \<comment> \<open>the truthiness of \<^verbatim>\<open>notified[key]\<close>\<close>
  "flagged m k = (m k = Some True)"

fun truthy_id :: "nat option \<Rightarrow> bool" where
  \<comment> \<open>the truthiness of \<^verbatim>\<open>watchId\<close>: \<^verbatim>\<open>null\<close> and \<open>0\<close> are falsy\<close>
  "truthy_id None = False"
| "truthy_id (Some i) = (i \<noteq> 0)"

section \<open>Strings\<close>

definition str_includes :: "string \<Rightarrow> string \<Rightarrow> bool" where
  \<comment> \<open>\<^verbatim>\<open>s.includes(t)\<close>\<close>
  "str_includes s t = sublist t s"

definition digit :: "nat \<Rightarrow> char" where
  "digit n = char_of (48 + n)"

fun string_of_nat :: "nat \<Rightarrow> string" where
  "string_of_nat n =
     (if n < 10 then [digit n] else string_of_nat (n div 10) @ [digit (n mod 10)])"

definition string_of_int :: "int \<Rightarrow> string" where
  "string_of_int i = (if i < 0 then ''-'' @ string_of_nat (nat (- i)) else string_of_nat (nat i))"

definition string_or_null :: "string option \<Rightarrow> string" where
  \<comment> \<open>a value of session storage inside a template literal\<close>
  "string_or_null v = (case v of None \<Rightarrow> ''null'' | Some s \<Rightarrow> s)"

definition hundredths :: "real \<Rightarrow> nat" where
  \<comment> \<open>the integer \<open>n\<close> that \<^verbatim>\<open>toFixed(2)\<close> picks for \<open>\<bar>x\<bar>\<close>: \<open>n / 100\<close> nearest, the larger on a tie\<close>
  "hundredths x = nat \<lfloor>\<bar>x\<bar> * 100 + 1 / 2\<rfloor>"

fun toFixed2 :: "jsnum \<Rightarrow> string" where
  "toFixed2 NaN = ''NaN''"
| "toFixed2 (Num x) =
     (let n = hundredths x
      in (if x < 0 then ''-'' else []) @ string_of_nat (n div 100) @ ''.'' @
         [digit (n div 10 mod 10), digit (n mod 10)])"

fun parseFloat_toFixed2 :: "jsnum \<Rightarrow> jsnum" where
  \<comment> \<open>\<^verbatim>\<open>parseFloat(distance.toFixed(2))\<close>\<close>
  "parseFloat_toFixed2 NaN = NaN"
| "parseFloat_toFixed2 (Num x) =
     Num ((if x < 0 then - 1 else 1) * real (hundredths x) / 100)"

section \<open>NotificationSystem\<close>

definition NotificationSystem_show :: "string \<Rightarrow> ntype \<Rightarrow> nat \<Rightarrow> bool \<Rightarrow> world \<Rightarrow> world" where
  "NotificationSystem_show message type duration isImportant w =
     (let w1 = emit [InApp message type duration] w
      in if isImportant then
           (let w2 = emit [Native message type] w1;
                w3 = emit [Vibrate type] w2
            in if str_includes message ''arrived'' then emit [PlaySound] w3 else w3)
         else w1)"

definition releaseWakeLock :: "world \<Rightarrow> world" where
  "releaseWakeLock w =
     (if wakeLock w then emit [ReleaseWakeLock] (w\<lparr>wakeLock := False\<rparr>) else w)"

section \<open>StorageService\<close>

text \<open>
  \<^verbatim>\<open>StorageService.saveTripHistory\<close>.  Local storage and JSON are taken to work, so the
  \<^verbatim>\<open>catch\<close> branch, which only reports a failure of theirs, is never entered.  The clock
  \<open>now\<close> and the fresh identifier \<open>tid\<close> of \<^verbatim>\<open>Utils.generateId\<close> come from outside.
\<close>

definition saveTripHistory :: "string option \<Rightarrow> jsnum \<Rightarrow> int \<Rightarrow> int \<Rightarrow> string \<Rightarrow> world \<Rightarrow> world" where
  "saveTripHistory dest distance duration now tid w =
     (let trips = tripHistory w;
          newTrip = \<lparr>trip_id = tid, trip_destination = dest,
                     trip_distance = parseFloat_toFixed2 distance,
                     trip_duration = duration, trip_timestamp = now\<rparr>;
          trips1 = newTrip # trips;
          trips2 = (if length trips1 > maxTrips then take maxTrips trips1 else trips1);
          w1 = emit [StoreTrips] (w\<lparr>tripHistory := trips2\<rparr>)
      in NotificationSystem_show
           (''Trip saved: '' @ string_or_null dest @ '' ('' @ toFixed2 distance @ '' km)'')
           Success durations_medium False w1)"

section \<open>TrackingService\<close>

text \<open>
  The leading pictograph of each message is left out.  \<open>newId\<close> is the identifier that
  \<^verbatim>\<open>watchPosition\<close> returns.
\<close>

definition startPositionTracking :: "nat \<Rightarrow> world \<Rightarrow> world" where
  "startPositionTracking newId w =
     (let w1 = w\<lparr>isTracking := True\<rparr>;
          w2 = (case watchId w1 of
                  Some i \<Rightarrow>
                    if i \<noteq> 0 then emit [ClearWatch i] (w1\<lparr>watches := watches w1 - {i}\<rparr>)
                    else w1
                | None \<Rightarrow> w1)
      in emit [WatchPosition newId]
           (w2\<lparr>watchId := Some newId, watches := insert newId (watches w2)\<rparr>))"

definition stopTracking :: "world \<Rightarrow> world" where
  "stopTracking w =
     (let w1 = w\<lparr>isTracking := False\<rparr>;
          w2 = (case watchId w1 of
                  Some i \<Rightarrow>
                    if i \<noteq> 0
                    then emit [ClearWatch i] (w1\<lparr>watches := watches w1 - {i}, watchId := None\<rparr>)
                    else w1
                | None \<Rightarrow> w1)
      in releaseWakeLock w2)"

definition tripDuration :: "int option \<Rightarrow> int \<Rightarrow> int" where
  \<comment> \<open>\<^verbatim>\<open>Math.round((new Date() - trackingStartTime) / 60000)\<close>, or \<open>0\<close> without a start time\<close>
  "tripDuration start now =
     (case start of Some t0 \<Rightarrow> \<lfloor>real_of_int (now - t0) / 60000 + 1 / 2\<rfloor> | None \<Rightarrow> 0)"

definition arrived_message :: "int \<Rightarrow> string" where
  "arrived_message minutes =
     ''You've arrived at your destination! Trip took '' @ string_of_int minutes @ '' minutes.''"

definition handleArrival :: "jsnum \<Rightarrow> int \<Rightarrow> string \<Rightarrow> world \<Rightarrow> world" where
  "handleArrival distance now tid w =
     (let duration = tripDuration (trackingStartTime w) now;
          w1 = NotificationSystem_show (arrived_message duration) Success
                 durations_persistent True w;
          w2 = saveTripHistory (destination w1) distance duration now tid w1;
          w3 = emit [SetNotified ''arrived'']
                 (w2\<lparr>notified := (notified w2)(''arrived'' \<mapsto> True)\<rparr>)
      in stopTracking w3)"

text \<open>
  The chain of tests of \<^verbatim>\<open>TrackingService.checkNotifications\<close>, for a distance already
  computed; \<open>checkNotifications\<close> below computes it first, as the source does.
\<close>

definition checkNotifications_at :: "jsnum \<Rightarrow> int \<Rightarrow> string \<Rightarrow> world \<Rightarrow> world" where
  "checkNotifications_at distance now tid w =
     (if jlt distance distances_arrived \<and> \<not> flagged (notified w) ''arrived'' then
        handleArrival distance now tid w
      else if jlt distance distances_close \<and> \<not> flagged (notified w) ''500m'' then
        (let w1 = NotificationSystem_show ''500 meters remaining to destination'' Warning
                    durations_medium True w
         in emit [SetNotified ''500m''] (w1\<lparr>notified := (notified w1)(''500m'' \<mapsto> True)\<rparr>))
      else if jlt distance distances_near \<and> \<not> flagged (notified w) ''1km'' then
        (let w1 = NotificationSystem_show ''1 kilometer remaining to destination'' Info
                    durations_medium True w
         in emit [SetNotified ''1km''] (w1\<lparr>notified := (notified w1)(''1km'' \<mapsto> True)\<rparr>))
      else if jlt distance distances_approaching \<and> \<not> flagged (notified w) ''2km'' then
        (let w1 = NotificationSystem_show ''2 kilometers remaining to destination'' Info
                    durations_short False w
         in emit [SetNotified ''2km''] (w1\<lparr>notified := (notified w1)(''2km'' \<mapsto> True)\<rparr>))
      else w)"

definition checkNotifications :: "jsval \<Rightarrow> jsval \<Rightarrow> int \<Rightarrow> string \<Rightarrow> world \<Rightarrow> world" where
  "checkNotifications lat lng now tid w =
     (let distance = haversine lat lng (destLat w) (destLng w)
      in checkNotifications_at distance now tid w)"

definition handlePositionUpdate :: "jsnum \<Rightarrow> jsnum \<Rightarrow> int \<Rightarrow> string \<Rightarrow> world \<Rightarrow> world" where
  \<comment> \<open>the marker, status, route and map-bounds updates touch only the map widgets\<close>
  "handlePositionUpdate lat lng now tid w = checkNotifications (Number lat) (Number lng) now tid w"

definition reset :: "world \<Rightarrow> world" where
  \<comment> \<open>\<^verbatim>\<open>AppState.reset\<close>\<close>
  "reset w =
     (let w1 = w\<lparr>notified := Map.empty, isTracking := False, trackingStartTime := None\<rparr>
      in case watchId w1 of
           Some i \<Rightarrow>
             if i \<noteq> 0
             then emit [ClearWatch i] (w1\<lparr>watches := watches w1 - {i}, watchId := None\<rparr>)
             else w1
         | None \<Rightarrow> w1)"

section \<open>The tracking page\<close>

text \<open>
  \<^verbatim>\<open>TrackPageController.trackDestination\<close> after a successful geocoding, with the two
  results of \<^verbatim>\<open>parseFloat\<close>: it runs once, when the tracking page loads.
\<close>

definition trackDestination :: "jsnum \<Rightarrow> jsnum \<Rightarrow> nat \<Rightarrow> int \<Rightarrow> world \<Rightarrow> world" where
  "trackDestination lat lon newId now w =
     (let w1 = w\<lparr>destLat := Number lat, destLng := Number lon\<rparr>;
          w2 = startPositionTracking newId w1;
          w3 = NotificationSystem_show ''Tracking started successfully!'' Success
                 durations_short True w2
      in w3\<lparr>trackingStartTime := Some now\<rparr>)"

text \<open>
  What can happen to a loaded page: a position sample arrives (from the watch or from
  the backup poll), the page is unloaded, the page becomes visible again, and
  \<^verbatim>\<open>AppState.reset\<close>, which the source defines and calls nowhere.
\<close>

datatype op =
    PositionUpdate jsnum jsnum int string
  | BeforeUnload
  | VisibilityVisible nat
  | Reset

fun step :: "op \<Rightarrow> world \<Rightarrow> world" where
  "step (PositionUpdate lat lng now tid) w = handlePositionUpdate lat lng now tid w"
| "step BeforeUnload w = releaseWakeLock (stopTracking w)"
| "step (VisibilityVisible newId) w =
     (if isTracking w then startPositionTracking newId w else w)"
| "step Reset w = reset w"

fun run :: "op list \<Rightarrow> world \<Rightarrow> world" where
  "run [] w = w"
| "run (x # xs) w = run xs (step x w)"

text \<open>\<^verbatim>\<open>watchPosition\<close> returns an identifier greater than zero.\<close>

fun op_ok :: "op \<Rightarrow> bool" where
  "op_ok (VisibilityVisible newId) = (0 < newId)"
| "op_ok _ = True"

section \<open>The threshold decision as the specification words it\<close>

datatype ThresholdId = Arrived | Close | Near | Approaching

fun boundary :: "ThresholdId \<Rightarrow> jsnum" where
  "boundary Arrived = Num (5404319552844595 / 2 ^ 54)"
| "boundary Close = Num (75 / 100)"
| "boundary Near = Num 1"
| "boundary Approaching = Num 2"

fun key :: "ThresholdId \<Rightarrow> string" where
  "key Arrived = ''arrived''"
| "key Close = ''500m''"
| "key Near = ''1km''"
| "key Approaching = ''2km''"

definition strict_to_loose :: "ThresholdId list" where
  "strict_to_loose = [Arrived, Close, Near, Approaching]"

definition jge :: "jsnum \<Rightarrow> jsnum \<Rightarrow> bool" where
  \<comment> \<open>\<^verbatim>\<open>a >= b\<close>\<close>
  "jge a b = (case (a, b) of (Num x, Num y) \<Rightarrow> y \<le> x | _ \<Rightarrow> False)"

definition spec_evaluate :: "jsnum \<Rightarrow> (string \<rightharpoonup> bool) \<Rightarrow> ThresholdId option" where
  \<comment> \<open>the first threshold, strictest first, whose boundary is \<open>\<ge>\<close> the distance and
      that is not yet notified\<close>
  "spec_evaluate d n =
     find (\<lambda>t. jge (boundary t) d \<and> \<not> flagged n (key t)) strict_to_loose"

definition evaluate :: "jsnum \<Rightarrow> (string \<rightharpoonup> bool) \<Rightarrow> ThresholdId option" where
  \<comment> \<open>the same with a strict comparison: the boundary is \<open>>\<close> the distance\<close>
  "evaluate d n =
     find (\<lambda>t. jlt d (boundary t) \<and> \<not> flagged n (key t)) strict_to_loose"

text \<open>What a trace shows: the flags written, and the threshold alerts put on screen.\<close>

fun marks :: "event list \<Rightarrow> string list" where
  "marks [] = []"
| "marks (SetNotified k # es) = k # marks es"
| "marks (_ # es) = marks es"

definition alert_of_message :: "string \<Rightarrow> ThresholdId option" where
  "alert_of_message m =
     (if prefix ''You've arrived'' m then Some Arrived
      else if m = ''500 meters remaining to destination'' \<or> m = ''500m remaining'' then Some Close
      else if m = ''1 kilometer remaining to destination'' \<or> m = ''1km remaining'' then Some Near
      else if m = ''2 kilometers remaining to destination'' \<or> m = ''2km remaining''
      then Some Approaching
      else None)"

fun alerts :: "event list \<Rightarrow> ThresholdId list" where
  "alerts [] = []"
| "alerts (InApp m ty d # es) =
     (case alert_of_message m of Some t \<Rightarrow> t # alerts es | None \<Rightarrow> alerts es)"
| "alerts (AlertBox m # es) =
     (case alert_of_message m of Some t \<Rightarrow> t # alerts es | None \<Rightarrow> alerts es)"
| "alerts (_ # es) = alerts es"

definition emitted :: "(world \<Rightarrow> world) \<Rightarrow> world \<Rightarrow> event list" where
  \<comment> \<open>the events one call adds\<close>
  "emitted f w = drop (length (trace w)) (trace (f w))"

section \<open>The earlier tracker of script.js\<close>

text \<open>
  \<^verbatim>\<open>script.js\<close> keeps its destination and flags in globals.  \<^verbatim>\<open>initMapWithTracking\<close>
  registers a timer with \<^verbatim>\<open>setInterval\<close> that asks for the position every five seconds
  and passes the distance to \<^verbatim>\<open>checkNotifications\<close>; the timer's identifier is not
  kept and \<^verbatim>\<open>script.js\<close> never calls \<^verbatim>\<open>clearInterval\<close>.  \<open>l_intervals\<close> counts the
  timers registered.  The trip record holds the distance as the string of
  \<^verbatim>\<open>toFixed(2)\<close>.  \<open>l_alarm\<close> tells whether the page has the \<^verbatim>\<open>alarmSound\<close> element.
\<close>

record legacy_trip =
  lt_destination :: "string option"
  lt_distance :: string
  lt_time :: int

record legacy =
  l_destLat :: jsval
  l_destLng :: jsval
  l_intervals :: nat
  l_notified :: "string \<rightharpoonup> bool"
  l_trips :: "legacy_trip list"
  l_destination :: "string option"
  l_alarm :: bool
  l_trace :: "event list"

definition notify :: "string \<Rightarrow> legacy \<Rightarrow> legacy" where
  "notify msg s =
     (let s1 = s\<lparr>l_trace := l_trace s @ [AlertBox msg]\<rparr>
      in if l_alarm s1 \<and> str_includes msg ''arrived''
         then s1\<lparr>l_trace := l_trace s1 @ [AlarmPlay]\<rparr> else s1)"

definition legacy_saveTripHistory :: "string option \<Rightarrow> jsnum \<Rightarrow> int \<Rightarrow> legacy \<Rightarrow> legacy" where
  "legacy_saveTripHistory dest distance now s =
     (let trips = l_trips s @
            [\<lparr>lt_destination = dest, lt_distance = toFixed2 distance, lt_time = now\<rparr>]
      in s\<lparr>l_trips := trips, l_trace := l_trace s @ [StoreTrips]\<rparr>)"

definition legacy_checkNotifications :: "jsnum \<Rightarrow> int \<Rightarrow> legacy \<Rightarrow> legacy" where
  "legacy_checkNotifications distance now s =
     (if jlt distance (Num (5404319552844595 / 2 ^ 54)) \<and> \<not> flagged (l_notified s) ''arrived'' then
        (let s1 = notify ''You've arrived!'' s;
             s2 = legacy_saveTripHistory (l_destination s1) distance now s1
         in s2\<lparr>l_notified := (l_notified s2)(''arrived'' \<mapsto> True),
               l_trace := l_trace s2 @ [SetNotified ''arrived'']\<rparr>)
      else if jlt distance (Num (75 / 100)) \<and> \<not> flagged (l_notified s) ''500m'' then
        (let s1 = notify ''500m remaining'' s
         in s1\<lparr>l_notified := (l_notified s1)(''500m'' \<mapsto> True),
               l_trace := l_trace s1 @ [SetNotified ''500m'']\<rparr>)
      else if jlt distance (Num 1) \<and> \<not> flagged (l_notified s) ''1km'' then
        (let s1 = notify ''1km remaining'' s
         in s1\<lparr>l_notified := (l_notified s1)(''1km'' \<mapsto> True),
               l_trace := l_trace s1 @ [SetNotified ''1km'']\<rparr>)
      else if jlt distance (Num 2) \<and> \<not> flagged (l_notified s) ''2km'' then
        (let s1 = notify ''2km remaining'' s
         in s1\<lparr>l_notified := (l_notified s1)(''2km'' \<mapsto> True),
               l_trace := l_trace s1 @ [SetNotified ''2km'']\<rparr>)
      else s)"

definition legacy_emitted :: "(legacy \<Rightarrow> legacy) \<Rightarrow> legacy \<Rightarrow> event list" where
  "legacy_emitted f s = drop (length (l_trace s)) (l_trace (f s))"

definition legacy_new :: "legacy_trip list \<Rightarrow> string option \<Rightarrow> bool \<Rightarrow> legacy" where
  \<comment> \<open>the globals of \<^verbatim>\<open>script.js\<close> when the page has loaded\<close>
  "legacy_new trips dest alarm =
     \<lparr>l_destLat = Null, l_destLng = Null, l_intervals = 0, l_notified = Map.empty,
      l_trips = trips, l_destination = dest, l_alarm = alarm, l_trace = []\<rparr>"

definition legacy_initMapWithTracking :: "legacy \<Rightarrow> legacy" where
  \<comment> \<open>the map widgets left out: what remains is the call of \<^verbatim>\<open>setInterval\<close>\<close>
  "legacy_initMapWithTracking s = s\<lparr>l_intervals := Suc (l_intervals s)\<rparr>"

definition legacy_trackDestination :: "jsnum \<Rightarrow> jsnum \<Rightarrow> legacy \<Rightarrow> legacy" where
  \<comment> \<open>\<^verbatim>\<open>trackDestination\<close> after a successful geocoding\<close>
  "legacy_trackDestination lat lon s =
     legacy_initMapWithTracking (s\<lparr>l_destLat := Number lat, l_destLng := Number lon\<rparr>)"

definition legacy_poll :: "jsnum \<Rightarrow> jsnum \<Rightarrow> int \<Rightarrow> legacy \<Rightarrow> legacy" where
  \<comment> \<open>one run of the timer's position callback\<close>
  "legacy_poll lat lng now s =
     (let distance = haversine (Number lat) (Number lng) (l_destLat s) (l_destLng s)
      in legacy_checkNotifications distance now s)"

section \<open>Channels of an event, and the events of each call\<close>

fun is_inapp :: "event \<Rightarrow> bool" where
  "is_inapp (InApp m ty d) = True"
| "is_inapp _ = False"

fun is_native :: "event \<Rightarrow> bool" where
  "is_native (Native m ty) = True"
| "is_native _ = False"

fun is_vibrate :: "event \<Rightarrow> bool" where
  "is_vibrate (Vibrate ty) = True"
| "is_vibrate _ = False"

fun is_sound :: "event \<Rightarrow> bool" where
  "is_sound PlaySound = True"
| "is_sound _ = False"

fun is_dispatch :: "event \<Rightarrow> bool" where
  \<comment> \<open>an alert reaching the user, on any channel of either file\<close>
  "is_dispatch (InApp m ty d) = True"
| "is_dispatch (Native m ty) = True"
| "is_dispatch (Vibrate ty) = True"
| "is_dispatch PlaySound = True"
| "is_dispatch (AlertBox m) = True"
| "is_dispatch AlarmPlay = True"
| "is_dispatch _ = False"

definition show_events :: "string \<Rightarrow> ntype \<Rightarrow> nat \<Rightarrow> bool \<Rightarrow> event list" where
  "show_events m ty d imp =
     InApp m ty d #
     (if imp
      then [Native m ty, Vibrate ty] @ (if str_includes m ''arrived'' then [PlaySound] else [])
      else [])"

definition clear_events :: "nat option \<Rightarrow> event list" where
  "clear_events wid = (case wid of Some i \<Rightarrow> if i \<noteq> 0 then [ClearWatch i] else [] | None \<Rightarrow> [])"

definition cleared :: "nat option \<Rightarrow> nat set \<Rightarrow> nat set" where
  "cleared wid ws = (case wid of Some i \<Rightarrow> if i \<noteq> 0 then ws - {i} else ws | None \<Rightarrow> ws)"

definition stop_events :: "world \<Rightarrow> event list" where
  "stop_events w = clear_events (watchId w) @ (if wakeLock w then [ReleaseWakeLock] else [])"

definition new_trip :: "jsnum \<Rightarrow> int \<Rightarrow> string \<Rightarrow> world \<Rightarrow> trip" where
  \<comment> \<open>the record \<open>handleArrival\<close> hands to \<open>saveTripHistory\<close>\<close>
  "new_trip distance now tid w =
     \<lparr>trip_id = tid, trip_destination = destination w,
      trip_distance = parseFloat_toFixed2 distance,
      trip_duration = tripDuration (trackingStartTime w) now, trip_timestamp = now\<rparr>"

definition arrival_events :: "jsnum \<Rightarrow> int \<Rightarrow> world \<Rightarrow> event list" where
  "arrival_events distance now w =
     show_events (arrived_message (tripDuration (trackingStartTime w) now)) Success
       durations_persistent True @
     StoreTrips #
     show_events
       (''Trip saved: '' @ string_or_null (destination w) @ '' ('' @ toFixed2 distance @ '' km)'')
       Success durations_medium False @
     [SetNotified ''arrived''] @ stop_events w"

definition fire_events :: "ThresholdId \<Rightarrow> jsnum \<Rightarrow> int \<Rightarrow> world \<Rightarrow> event list" where
  "fire_events t distance now w =
     (case t of
        Arrived \<Rightarrow> arrival_events distance now w
      | Close \<Rightarrow>
          show_events ''500 meters remaining to destination'' Warning durations_medium True @
          [SetNotified ''500m'']
      | Near \<Rightarrow>
          show_events ''1 kilometer remaining to destination'' Info durations_medium True @
          [SetNotified ''1km'']
      | Approaching \<Rightarrow>
          show_events ''2 kilometers remaining to destination'' Info durations_short False @
          [SetNotified ''2km''])"

definition legacy_fire_events :: "ThresholdId \<Rightarrow> legacy \<Rightarrow> event list" where
  "legacy_fire_events t s =
     (case t of
        Arrived \<Rightarrow>
          AlertBox ''You've arrived!'' # (if l_alarm s then [AlarmPlay] else []) @
          [StoreTrips, SetNotified ''arrived'']
      | Close \<Rightarrow> [AlertBox ''500m remaining'', SetNotified ''500m'']
      | Near \<Rightarrow> [AlertBox ''1km remaining'', SetNotified ''1km'']
      | Approaching \<Rightarrow> [AlertBox ''2km remaining'', SetNotified ''2km''])"

text \<open>The events of a call before and after it writes the flag \<open>k\<close>.\<close>

definition before_mark :: "string \<Rightarrow> event list \<Rightarrow> event list" where
  "before_mark k es = takeWhile (\<lambda>e. e \<noteq> SetNotified k) es"

definition after_mark :: "string \<Rightarrow> event list \<Rightarrow> event list" where
  "after_mark k es = drop 1 (dropWhile (\<lambda>e. e \<noteq> SetNotified k) es)"

text \<open>Two invariants of a loaded page, used below.\<close>

definition fired_once :: "world \<Rightarrow> bool" where
  "fired_once w =
     (distinct (marks (trace w)) \<and> distinct (alerts (trace w)) \<and>
      list_all (flagged (notified w)) (marks (trace w)) \<and>
      list_all (\<lambda>t. flagged (notified w) (key t)) (alerts (trace w)))"

definition arrived_inactive :: "world \<Rightarrow> bool" where
  "arrived_inactive w =
     ((flagged (notified w) ''arrived'' \<longrightarrow> \<not> isTracking w) \<and>
      (\<not> isTracking w \<longrightarrow> watchId w = None) \<and>
      watchId w \<noteq> Some 0 \<and> watches w = set_option (watchId w))"

section \<open>The distance in the arithmetic of doubles\<close>

text \<open>
  A finite double is a real; each operator returns the double nearest to the exact
  result, ties to the even significand.  A double has a significand of 53 bits and an
  exponent of at least \<open>-1022\<close>: below \<open>2\<^sup>-\<^sup>1\<^sup>0\<^sup>2\<^sup>2\<close> the doubles are the multiples of
  \<open>2\<^sup>-\<^sup>1\<^sup>0\<^sup>7\<^sup>4\<close>, so a small enough result rounds to zero.  Overflow is left out: on the
  arguments that the theorems below consider no operation of the distance code comes
  near the largest double.
  \<^verbatim>\<open>Math.sin\<close>, \<^verbatim>\<open>Math.cos\<close> and \<^verbatim>\<open>Math.atan2\<close> are what the engine's library returns and are
  parameters.  \<^verbatim>\<open>x ** 2\<close> is the rounded square and \<^verbatim>\<open>Math.sqrt\<close> the rounded root.
\<close>

definition rne :: "real \<Rightarrow> int" where
  \<comment> \<open>the nearest integer, the even one on a tie\<close>
  "rne x =
     (let f = \<lfloor>x\<rfloor>; r = x - of_int f
      in if r < 1 / 2 then f else if 1 / 2 < r then f + 1 else if even f then f else f + 1)"

definition expo :: "real \<Rightarrow> int" where
  \<comment> \<open>the exponent of the doubles around \<open>x\<close>\<close>
  "expo x = max \<lfloor>log 2 \<bar>x\<bar>\<rfloor> (- 1022)"

definition dbl :: "real \<Rightarrow> real" where
  \<comment> \<open>the nearest double: the doubles around \<open>x\<close> are the multiples of \<open>2 powi (expo x - 52)\<close>\<close>
  "dbl x =
     (if x = 0 then 0
      else (let u = 2 powi (expo x - 52) in of_int (rne (x / u)) * u))"

definition dadd :: "jsnum \<Rightarrow> jsnum \<Rightarrow> jsnum" where
  "dadd = lift2 (\<lambda>x y. dbl (x + y))"

definition dsub :: "jsnum \<Rightarrow> jsnum \<Rightarrow> jsnum" where
  "dsub = lift2 (\<lambda>x y. dbl (x - y))"

definition dmul :: "jsnum \<Rightarrow> jsnum \<Rightarrow> jsnum" where
  "dmul = lift2 (\<lambda>x y. dbl (x * y))"

definition ddiv :: "jsnum \<Rightarrow> jsnum \<Rightarrow> jsnum" where
  "ddiv = lift2 (\<lambda>x y. dbl (x / y))"

definition dsq :: "jsnum \<Rightarrow> jsnum" where
  "dsq = lift1 (\<lambda>x. dbl (x * x))"

fun dsqrt :: "jsnum \<Rightarrow> jsnum" where
  "dsqrt (Num x) = (if x < 0 then NaN else Num (dbl (sqrt x)))"
| "dsqrt NaN = NaN"

record libm =
  lib_sin :: "real \<Rightarrow> real"
  lib_cos :: "real \<Rightarrow> real"
  lib_atan2 :: "real \<Rightarrow> real \<Rightarrow> real"

definition PI_double :: real where
  \<comment> \<open>the double \<^verbatim>\<open>Math.PI\<close>, 3.141592653589793\<close>
  "PI_double = 884279719003555 / 2 ^ 48"

definition deg2rad_double :: "jsnum \<Rightarrow> jsnum" where
  "deg2rad_double deg = dmul deg (ddiv (Num PI_double) (Num 180))"

definition haversine_double :: "libm \<Rightarrow> jsnum \<Rightarrow> jsnum \<Rightarrow> jsnum \<Rightarrow> jsnum \<Rightarrow> jsnum" where
  "haversine_double L lat1 lon1 lat2 lon2 =
     (let R = Num 6371;
          dLat = deg2rad_double (dsub lat2 lat1);
          dLon = deg2rad_double (dsub lon2 lon1);
          a = dadd (dsq (lift1 (lib_sin L) (ddiv dLat (Num 2))))
                (dmul (dmul (lift1 (lib_cos L) (deg2rad_double lat1))
                         (lift1 (lib_cos L) (deg2rad_double lat2)))
                   (dsq (lift1 (lib_sin L) (ddiv dLon (Num 2)))));
          c = dmul (Num 2) (lift2 (lib_atan2 L) (dsqrt a) (dsqrt (dsub (Num 1) a)))
      in dmul R c)"

definition fdlibm_at_8_degrees :: libm where
  \<comment> \<open>a library that returns, at the sine and cosine arguments met between the two
      antipodes below, the values that fdlibm and glibc return there\<close>
  "fdlibm_at_8_degrees =
     \<lparr>lib_sin = (\<lambda>x. if x < 0 then - (5014239404989977 / 2 ^ 55) else 1),
      lib_cos = (\<lambda>x. 4459770905381437 / 2 ^ 52),
      lib_atan2 = atan2\<rparr>"


text \<open>A position or destination whose two coordinates are finite numbers.\<close>

abbreviation coord :: "real \<Rightarrow> jsval" where
  "coord x \<equiv> Number (Num x)"

text \<open>The same computation written over the reals, for finite arguments.\<close>

definition rad :: "real \<Rightarrow> real" where
  "rad x = x * (pi / 180)"

definition hav_a :: "real \<Rightarrow> real \<Rightarrow> real \<Rightarrow> real \<Rightarrow> real" where
  "hav_a lat1 lon1 lat2 lon2 =
     (sin (rad (lat2 - lat1) / 2))\<^sup>2 +
     cos (rad lat1) * cos (rad lat2) * (sin (rad (lon2 - lon1) / 2))\<^sup>2"

definition hav_km :: "real \<Rightarrow> real \<Rightarrow> real \<Rightarrow> real \<Rightarrow> real" where
  "hav_km lat1 lon1 lat2 lon2 =
     (let a = hav_a lat1 lon1 lat2 lon2 in 6371 * (2 * atan2 (sqrt a) (sqrt (1 - a))))"

section \<open>Properties of the distance\<close>

lemma hav_a_at_one:
  "(sin ((q - p) / 2))\<^sup>2 + cos p * cos q = (cos ((p + q) / 2))\<^sup>2" for p q :: real
proof -
  define z where "z = (q - p) / 2"
  define w where "w = (p + q) / 2"
  have "q - p = 2 * z" "p + q = 2 * w"
    by (simp_all add: z_def w_def)
  then have "cos (q - p) = 1 - 2 * (sin z)\<^sup>2" "cos (p + q) = 2 * (cos w)\<^sup>2 - 1"
    by (simp only: cos_double_sin, simp only: cos_double_cos)
  then have s: "(sin ((q - p) / 2))\<^sup>2 = (1 - cos (q - p)) / 2"
    and c: "(cos ((p + q) / 2))\<^sup>2 = (1 + cos (p + q)) / 2"
    by (simp_all add: z_def w_def)
  have m: "cos p * cos q = (cos (p - q) + cos (p + q)) / 2"
    by (rule cos_times_cos)
  have "cos (q - p) = cos (p - q)"
    using cos_minus [of "p - q"] by simp
  with s c m show ?thesis by simp
qed

lemma sin_cos_sq_le_1: "(sin x)\<^sup>2 \<le> 1" "(cos x)\<^sup>2 \<le> 1" for x :: real
  using sin_cos_squared_add [of x] zero_le_power2 [of "sin x"] zero_le_power2 [of "cos x"]
  by linarith+

lemma hav_a_range: "0 \<le> hav_a lat1 lon1 lat2 lon2 \<and> hav_a lat1 lon1 lat2 lon2 \<le> 1"
proof -
  define p where "p = rad lat1"
  define q where "q = rad lat2"
  define s where "s = (sin (rad (lon2 - lon1) / 2))\<^sup>2"
  define u where "u = (sin ((q - p) / 2))\<^sup>2"
  define v where "v = (cos ((p + q) / 2))\<^sup>2"
  have d: "rad (lat2 - lat1) = q - p"
    by (simp add: rad_def p_def q_def left_diff_distrib)
  have s01: "0 \<le> s" "s \<le> 1"
    by (simp_all add: s_def sin_cos_sq_le_1)
  have u01: "0 \<le> u" "u \<le> 1"
    by (simp_all add: u_def sin_cos_sq_le_1)
  have v01: "0 \<le> v" "v \<le> 1"
    by (simp_all add: v_def sin_cos_sq_le_1)
  have cc: "cos p * cos q = v - u"
    using hav_a_at_one [of q p] by (simp add: u_def v_def)
  have "hav_a lat1 lon1 lat2 lon2 = u + cos p * cos q * s"
    by (simp add: hav_a_def d p_def q_def s_def u_def)
  also have "\<dots> = u + (v - u) * s"
    by (simp only: cc)
  also have "\<dots> = (1 - s) * u + s * v"
    by (simp add: algebra_simps)
  finally have a: "hav_a lat1 lon1 lat2 lon2 = (1 - s) * u + s * v" .
  have lo: "0 \<le> (1 - s) * u + s * v"
    using s01 u01 v01 by simp
  have "(1 - s) * u \<le> (1 - s) * 1" "s * v \<le> s * 1"
    using s01 u01 v01 by (intro mult_left_mono; simp)+
  then have hi: "(1 - s) * u + s * v \<le> 1"
    by simp
  from a lo hi show ?thesis by simp
qed

lemma atan2_nonneg: "0 \<le> y \<Longrightarrow> 0 \<le> x \<Longrightarrow> 0 \<le> atan2 y x"
  by (simp add: atan2_def)

lemma haversine_coord:
  "haversine (coord lat1) (coord lon1) (coord lat2) (coord lon2) =
     Num (hav_km lat1 lon1 lat2 lon2)"
proof -
  let ?a = "hav_a lat1 lon1 lat2 lon2"
  have r: "0 \<le> ?a" "?a \<le> 1"
    using hav_a_range [of lat1 lon1 lat2 lon2] by simp_all
  then have n: "\<not> ?a < 0" "\<not> 1 - ?a < 0"
    by simp_all
  have a: "jadd (jsq (Math_sin (jdiv (deg2rad (Number (jsub (ToNumber (coord lat2)) (ToNumber (coord lat1))))) (Num 2))))
             (jmul (jmul (Math_cos (deg2rad (coord lat1))) (Math_cos (deg2rad (coord lat2))))
                (jsq (Math_sin (jdiv (deg2rad (Number (jsub (ToNumber (coord lon2)) (ToNumber (coord lon1))))) (Num 2)))))
           = Num ?a"
    by (simp add: hav_a_def rad_def deg2rad_def jadd_def jsub_def jmul_def jdiv_def jsq_def
        Math_sin_def Math_cos_def Math_PI_def)
  show ?thesis
    unfolding haversine_def Let_def a
    using n by (simp add: hav_km_def Let_def jsub_def jmul_def Math_atan2_def)
qed

lemma hav_km_nonneg: "0 \<le> hav_km lat1 lon1 lat2 lon2"
proof -
  have "0 \<le> hav_a lat1 lon1 lat2 lon2" "hav_a lat1 lon1 lat2 lon2 \<le> 1"
    using hav_a_range [of lat1 lon1 lat2 lon2] by simp_all
  then have "0 \<le> atan2 (sqrt (hav_a lat1 lon1 lat2 lon2)) (sqrt (1 - hav_a lat1 lon1 lat2 lon2))"
    by (intro atan2_nonneg) simp_all
  then show ?thesis
    by (simp add: hav_km_def Let_def)
qed

lemma hav_a_sym: "hav_a lat1 lon1 lat2 lon2 = hav_a lat2 lon2 lat1 lon1"
proof -
  have m: "rad (- x) = - rad x" for x
    by (simp add: rad_def)
  have "rad (lat2 - lat1) / 2 = - (rad (lat1 - lat2) / 2)"
       "rad (lon2 - lon1) / 2 = - (rad (lon1 - lon2) / 2)"
    using m [of "lat1 - lat2"] m [of "lon1 - lon2"] by simp_all
  then show ?thesis
    unfolding hav_a_def by (simp add: mult.commute)
qed

lemma hav_km_same: "hav_km lat lon lat lon = 0"
  by (simp add: hav_km_def hav_a_def rad_def atan2_def)

text \<open>
  Over the reals the haversine distance of finite coordinates is symmetric, is zero
  between a point and itself, and is a number that is not negative.
\<close>

lemma haversine_real_symmetric_zero_nonneg:
  "haversine (coord lat1) (coord lon1) (coord lat2) (coord lon2) =
     haversine (coord lat2) (coord lon2) (coord lat1) (coord lon1)
   \<and> haversine (coord lat1) (coord lon1) (coord lat1) (coord lon1) = Num 0
   \<and> (\<exists>d. haversine (coord lat1) (coord lon1) (coord lat2) (coord lon2) = Num d \<and> 0 \<le> d)"
proof -
  have "hav_km lat1 lon1 lat2 lon2 = hav_km lat2 lon2 lat1 lon1"
    using hav_a_sym [of lat1 lon1 lat2 lon2] by (simp add: hav_km_def)
  then show ?thesis
    by (simp add: haversine_coord hav_km_same hav_km_nonneg)
qed

section \<open>Rounding to a double\<close>

text \<open>Rounding to the nearest integer.\<close>

lemma rne_cases: "rne x = \<lfloor>x\<rfloor> \<or> rne x = \<lfloor>x\<rfloor> + 1"
  by (simp add: rne_def Let_def)


lemma rne_of_int [simp]: "rne (of_int n) = n"
  by (simp add: rne_def)

lemma rne_le: "x \<le> of_int n \<Longrightarrow> rne x \<le> n"
proof -
  assume a: "x \<le> of_int n"
  show ?thesis
  proof (cases "x = of_int n")
    case True
    then show ?thesis by simp
  next
    case False
    with a have "x < of_int n" by simp
    then have "\<lfloor>x\<rfloor> < n"
      by (simp add: floor_less_iff)
    with rne_cases [of x] show ?thesis by linarith
  qed
qed

lemma rne_ge: "of_int n \<le> x \<Longrightarrow> n \<le> rne x"
proof -
  assume "of_int n \<le> x"
  then have "n \<le> \<lfloor>x\<rfloor>"
    by (simp add: le_floor_iff)
  with rne_cases [of x] show ?thesis by linarith
qed


text \<open>Powers of two and the exponent.\<close>

lemma pow2_pos [simp]: "(0 :: real) < 2 powi k"
  by (simp add: zero_less_power_int)

lemma pow2_mono: "j \<le> k \<Longrightarrow> (2 :: real) powi j \<le> 2 powi k"
  by (rule power_int_increasing) simp_all

lemma pow2_strict_mono: "j < k \<Longrightarrow> (2 :: real) powi j < 2 powi k"
  by (rule power_int_strict_increasing) simp_all

lemma pow2_less_D: "(2 :: real) powi j < 2 powi k \<Longrightarrow> j < k"
  using pow2_mono [of k j] by (cases "j < k") simp_all

lemma pow2_le_D: "(2 :: real) powi j \<le> 2 powi k \<Longrightarrow> j \<le> k"
  using pow2_strict_mono [of k j] by (cases "j \<le> k") simp_all

lemma pow2_split: "(2 :: real) powi (j + k) = 2 powi j * 2 powi k"
  by (simp add: power_int_add)

lemma pow2_nat: "0 \<le> k \<Longrightarrow> (2 :: real) powi k = of_int (2 ^ nat k)"
  using power_int_of_nat [of "2 :: real" "nat k"] by simp

lemma floor_log_bounds:
  assumes "x \<noteq> 0"
  shows "2 powi \<lfloor>log 2 \<bar>x\<bar>\<rfloor> \<le> \<bar>x\<bar>" "\<bar>x\<bar> < 2 powi (\<lfloor>log 2 \<bar>x\<bar>\<rfloor> + 1)"
proof -
  let ?k = "\<lfloor>log 2 \<bar>x\<bar>\<rfloor>"
  from assms have p: "0 < \<bar>x\<bar>" by simp
  have a: "(2 :: real) powr real_of_int ?k = 2 powi ?k"
    "(2 :: real) powr real_of_int (?k + 1) = 2 powi (?k + 1)"
    by (rule powr_real_of_int'; simp)+
  have "(\<lfloor>log 2 \<bar>x\<bar>\<rfloor> = ?k) =
      (2 powr real_of_int ?k \<le> \<bar>x\<bar> \<and> \<bar>x\<bar> < 2 powr real_of_int (?k + 1))"
    using p by (intro floor_log_eq_powr_iff) simp_all
  then have "2 powr real_of_int ?k \<le> \<bar>x\<bar> \<and> \<bar>x\<bar> < 2 powr real_of_int (?k + 1)"
    by simp
  then show "2 powi ?k \<le> \<bar>x\<bar>" "\<bar>x\<bar> < 2 powi (?k + 1)"
    by (simp_all only: a)
qed

lemma expo_low: "- 1022 \<le> expo x"
  by (simp add: expo_def)

lemma expo_minus [simp]: "expo (- x) = expo x"
  by (simp add: expo_def)

lemma expo_upper: "x \<noteq> 0 \<Longrightarrow> \<bar>x\<bar> < 2 powi (expo x + 1)"
proof -
  assume "x \<noteq> 0"
  then have "\<bar>x\<bar> < 2 powi (\<lfloor>log 2 \<bar>x\<bar>\<rfloor> + 1)"
    by (rule floor_log_bounds)
  also have "\<dots> \<le> 2 powi (expo x + 1)"
    by (rule pow2_mono) (simp add: expo_def)
  finally show ?thesis .
qed

lemma expo_ge: "2 powi k \<le> \<bar>x\<bar> \<Longrightarrow> k \<le> expo x"
proof -
  assume a: "2 powi k \<le> \<bar>x\<bar>"
  have "(0 :: real) < 2 powi k" by simp
  with a have "0 < \<bar>x\<bar>" by linarith
  then have "x \<noteq> 0" by simp
  then have "\<bar>x\<bar> < 2 powi (\<lfloor>log 2 \<bar>x\<bar>\<rfloor> + 1)"
    by (rule floor_log_bounds)
  with a have "(2 :: real) powi k < 2 powi (\<lfloor>log 2 \<bar>x\<bar>\<rfloor> + 1)"
    by linarith
  then have "k < \<lfloor>log 2 \<bar>x\<bar>\<rfloor> + 1"
    by (rule pow2_less_D)
  then show ?thesis
    by (simp add: expo_def)
qed

lemma expo_less: "x \<noteq> 0 \<Longrightarrow> \<bar>x\<bar> < 2 powi k \<Longrightarrow> - 1022 < k \<Longrightarrow> expo x < k"
proof -
  assume x: "x \<noteq> 0" and a: "\<bar>x\<bar> < 2 powi k" and k: "- 1022 < k"
  from x have "2 powi \<lfloor>log 2 \<bar>x\<bar>\<rfloor> \<le> \<bar>x\<bar>"
    by (rule floor_log_bounds)
  with a have "(2 :: real) powi \<lfloor>log 2 \<bar>x\<bar>\<rfloor> < 2 powi k"
    by linarith
  then have "\<lfloor>log 2 \<bar>x\<bar>\<rfloor> < k"
    by (rule pow2_less_D)
  with k show ?thesis
    by (simp add: expo_def)
qed


text \<open>
  The nearest double: it keeps the sign, it is a double, it does not exceed a double that
  bounds the exact value, and up to 1 it is within \<open>2\<^sup>-\<^sup>5\<^sup>4\<close> of the exact value.
\<close>

lemma dbl_0 [simp]: "dbl 0 = 0"
  by (simp add: dbl_def)

lemma dbl_eq: "x \<noteq> 0 \<Longrightarrow> dbl x = of_int (rne (x / 2 powi (expo x - 52))) * 2 powi (expo x - 52)"
  by (simp add: dbl_def Let_def)




lemma dbl_repr:
  assumes n: "\<bar>n\<bar> \<le> 2 ^ 53" and j: "- 1074 \<le> j"
  shows "dbl (of_int n * 2 powi j) = of_int n * 2 powi j"
proof (cases "n = 0")
  case True
  then show ?thesis by simp
next
  case False
  let ?v = "of_int n * (2 :: real) powi j"
  from False have v0: "?v \<noteq> 0" by simp
  have av: "\<bar>?v\<bar> = of_int \<bar>n\<bar> * 2 powi j"
    by (simp add: abs_mult)
  show ?thesis
  proof (cases "\<bar>n\<bar> = 2 ^ 53")
    case True
    then have "\<bar>?v\<bar> = 2 ^ 53 * 2 powi j"
      by (simp add: av)
    also have "\<dots> = 2 powi (53 + j)"
      by (simp add: pow2_split)
    finally have e: "\<bar>?v\<bar> = 2 powi (53 + j)" .
    then have "53 + j \<le> expo ?v"
      by (intro expo_ge) simp
    moreover have "expo ?v < 53 + j + 1"
    proof (rule expo_less [OF v0])
      show "\<bar>?v\<bar> < 2 powi (53 + j + 1)"
        unfolding e by (rule pow2_strict_mono) simp
      from j show "- 1022 < 53 + j + 1" by simp
    qed
    ultimately have ex: "expo ?v = 53 + j" by simp
    have u: "(2 :: real) powi (expo ?v - 52) = 2 powi j * 2"
      unfolding ex using pow2_split [of j 1] by (simp add: algebra_simps)
    from True have "\<bar>n\<bar> = 9007199254740992"
      by simp
    then have "n = 9007199254740992 \<or> n = - 9007199254740992"
      by linarith
    then have "n = 2 * 4503599627370496 \<or> n = 2 * (- 4503599627370496)"
      by simp
    then obtain m where m: "n = 2 * m"
      by blast
    have "?v / 2 powi (expo ?v - 52) = of_int m"
      unfolding u by (simp add: m)
    then have r: "rne (?v / 2 powi (expo ?v - 52)) = m"
      by (simp only: rne_of_int)
    have "dbl ?v = of_int m * 2 powi (expo ?v - 52)"
      unfolding dbl_eq [OF v0] r ..
    then show ?thesis
      unfolding u by (simp add: m)
  next
    case False
    with n have "\<bar>n\<bar> < 2 ^ 53" by simp
    then have "of_int \<bar>n\<bar> < (2 :: real) ^ 53"
      by (metis of_int_less_iff of_int_numeral of_int_power)
    then have "\<bar>?v\<bar> < 2 ^ 53 * 2 powi j"
      unfolding av by (simp add: mult_strict_right_mono)
    also have "\<dots> = 2 powi (53 + j)"
      by (simp add: pow2_split)
    finally have "\<bar>?v\<bar> < 2 powi (53 + j)" .
    moreover from j have "- 1022 < 53 + j" by simp
    ultimately have "expo ?v < 53 + j"
      by (rule expo_less [OF v0])
    moreover define e where "e = expo ?v"
    ultimately have k: "0 \<le> j - (e - 52)" by simp
    define k where "k = j - (e - 52)"
    from k have k0: "0 \<le> k" by (simp add: k_def)
    have "j = k + (e - 52)"
      by (simp add: k_def)
    then have "(2 :: real) powi j = 2 powi (k + (e - 52))"
      by (rule arg_cong)
    also have "\<dots> = 2 powi k * 2 powi (e - 52)"
      by (rule pow2_split)
    also have "\<dots> = of_int (2 ^ nat k) * 2 powi (e - 52)"
      using pow2_nat [OF k0] by simp
    finally have pj: "(2 :: real) powi j = of_int (2 ^ nat k) * 2 powi (e - 52)" .
    have "of_int n * 2 powi j / 2 powi (e - 52) = (of_int (n * 2 ^ nat k) :: real)"
      by (subst pj) simp
    then have r: "rne (?v / 2 powi (expo ?v - 52)) = n * 2 ^ nat k"
      unfolding e_def by (simp only: rne_of_int)
    have "dbl ?v = of_int (n * 2 ^ nat k) * 2 powi (expo ?v - 52)"
      unfolding dbl_eq [OF v0] r ..
    also have "\<dots> = of_int n * (of_int (2 ^ nat k) * 2 powi (e - 52))"
      by (simp add: e_def)
    also have "\<dots> = ?v"
      by (simp only: pj [symmetric])
    finally show ?thesis .
  qed
qed

lemma dbl_is_repr:
  "\<exists>n. \<bar>n\<bar> \<le> 2 ^ 53 \<and> dbl x = of_int n * 2 powi (expo x - 52)"
proof (cases "x = 0")
  case True
  then show ?thesis
    by (intro exI [of _ 0]) simp
next
  case False
  let ?u = "(2 :: real) powi (expo x - 52)"
  let ?n = "rne (x / ?u)"
  have "expo x + 1 = 53 + (expo x - 52)"
    by simp
  then have "(2 :: real) powi (expo x + 1) = 2 powi (53 + (expo x - 52))"
    by (rule arg_cong)
  also have "\<dots> = 2 powi 53 * ?u"
    by (rule pow2_split)
  finally have "(2 :: real) powi (expo x + 1) = 2 powi 53 * ?u" .
  with expo_upper [OF False] have "\<bar>x\<bar> < 2 powi 53 * ?u"
    by simp
  then have "\<bar>x\<bar> / ?u < 2 powi 53"
    by (simp add: field_simps)
  moreover define z where "z = x / ?u"
  ultimately have "\<bar>z\<bar> < 9007199254740992"
    by (simp add: abs_divide)
  then have a: "z \<le> of_int (2 ^ 53)" and b: "of_int (- (2 ^ 53)) \<le> z"
    by simp_all
  have "rne z \<le> 2 ^ 53" "- (2 ^ 53) \<le> rne z"
    by (rule rne_le [OF a], rule rne_ge [OF b])
  then have "?n \<le> 2 ^ 53" "- (2 ^ 53) \<le> ?n"
    by (simp_all only: z_def)
  then have "\<bar>?n\<bar> \<le> 2 ^ 53"
    by (simp add: abs_le_iff)
  with dbl_eq [OF False] show ?thesis
    by blast
qed

lemma dbl_idem [simp]: "dbl (dbl x) = dbl x"
proof -
  obtain n where n: "\<bar>n\<bar> \<le> 2 ^ 53" "dbl x = of_int n * 2 powi (expo x - 52)"
    using dbl_is_repr [of x] by blast
  have "- 1074 \<le> expo x - 52"
    using expo_low [of x] by simp
  with n(1) show ?thesis
    unfolding n(2) by (rule dbl_repr)
qed



lemma dbl_int: "\<bar>n\<bar> \<le> 2 ^ 53 \<Longrightarrow> dbl (of_int n) = of_int n"
  using dbl_repr [of n 0] by simp

lemma dbl_1 [simp]: "dbl 1 = 1"
  using dbl_int [of 1] by simp









section \<open>The distance between antipodes, in doubles\<close>

lemma dbl_at:
  assumes "2 powi k \<le> \<bar>x\<bar>" "\<bar>x\<bar> < 2 powi (k + 1)" "- 1022 \<le> k"
  shows "dbl x = of_int (rne (x / 2 powi (k - 52))) * 2 powi (k - 52)"
proof -
  have "(0 :: real) < 2 powi k"
    by simp
  with assms(1) have "0 < \<bar>x\<bar>"
    by linarith
  then have x: "x \<noteq> 0"
    by simp
  have "k \<le> expo x"
    using assms(1) by (rule expo_ge)
  moreover have "expo x < k + 1"
    using x assms(2,3) by (intro expo_less) simp_all
  ultimately have "expo x = k"
    by simp
  with dbl_eq [OF x] show ?thesis
    by simp
qed

lemma dbl_steps:
  "dbl (884279719003555 / 2 ^ 48 / 180) = 5030569068109113 / 2 ^ 58"
  "dbl (- 8 - 8) = - 16"
  "dbl (0 - - 180) = 180"
  "dbl (1 * 1) = 1"
  "dbl (- 16 * (5030569068109113 / 2 ^ 58)) = - (5030569068109113 / 2 ^ 54)"
  "dbl (- (5030569068109113 / 2 ^ 54) / 2) = - (5030569068109113 / 2 ^ 55)"
  "dbl (180 * (5030569068109113 / 2 ^ 58)) = 884279719003555 / 2 ^ 48"
  "dbl (884279719003555 / 2 ^ 48 / 2) = 884279719003555 / 2 ^ 49"
  "dbl (8 * (5030569068109113 / 2 ^ 58)) = 5030569068109113 / 2 ^ 55"
  "dbl (- 8 * (5030569068109113 / 2 ^ 58)) = - (5030569068109113 / 2 ^ 55)"
  "dbl (- (5014239404989977 / 2 ^ 55) * - (5014239404989977 / 2 ^ 55)) =
     1395694493897217 / 2 ^ 56"
  "dbl (4459770905381437 / 2 ^ 52 * (4459770905381437 / 2 ^ 52)) = 8832737443003841 / 2 ^ 53"
  "dbl (8832737443003841 / 2 ^ 53 * 1) = 8832737443003841 / 2 ^ 53"
  "dbl (1395694493897217 / 2 ^ 56 + 8832737443003841 / 2 ^ 53) = 4503599627370497 / 2 ^ 52"
  "dbl (1 - 4503599627370497 / 2 ^ 52) = - (1 / 2 ^ 52)"
  subgoal by (subst dbl_at [where k = "- 6"]) (simp_all add: rne_def power_int_minus field_simps)
  subgoal by (subst dbl_at [where k = 4]) (simp_all add: rne_def power_int_minus field_simps)
  subgoal by (subst dbl_at [where k = 7]) (simp_all add: rne_def power_int_minus field_simps)
  subgoal by (subst dbl_at [where k = 0]) (simp_all add: rne_def power_int_minus field_simps)
  subgoal by (subst dbl_at [where k = "- 2"]) (simp_all add: rne_def power_int_minus field_simps)
  subgoal by (subst dbl_at [where k = "- 3"]) (simp_all add: rne_def power_int_minus field_simps)
  subgoal by (subst dbl_at [where k = 1]) (simp_all add: rne_def power_int_minus field_simps)
  subgoal by (subst dbl_at [where k = 0]) (simp_all add: rne_def power_int_minus field_simps)
  subgoal by (subst dbl_at [where k = "- 3"]) (simp_all add: rne_def power_int_minus field_simps)
  subgoal by (subst dbl_at [where k = "- 3"]) (simp_all add: rne_def power_int_minus field_simps)
  subgoal by (subst dbl_at [where k = "- 6"]) (simp_all add: rne_def power_int_minus field_simps)
  subgoal by (subst dbl_at [where k = "- 1"]) (simp_all add: rne_def power_int_minus field_simps)
  subgoal by (subst dbl_at [where k = "- 1"]) (simp_all add: rne_def power_int_minus field_simps)
  subgoal by (subst dbl_at [where k = 0]) (simp_all add: rne_def power_int_minus field_simps)
  subgoal by (subst dbl_at [where k = "- 52"]) (simp_all add: rne_def power_int_minus field_simps)
  done

text \<open>
  Claim C8 fails on the code in doubles.  From latitude 8 and longitude -180 to latitude -8
  and longitude 0, with the values that \<^verbatim>\<open>Math.sin\<close> and \<^verbatim>\<open>Math.cos\<close> return there, the
  sum \<open>a\<close> rounds to \<open>1 + 2\<^sup>-\<^sup>5\<^sup>2\<close>, \<open>1 - a\<close> is negative, its root is \<open>NaN\<close> and so is the
  distance: the argument of the root is not clamped to the interval from 0 to 1.
\<close>

theorem haversine_double_antipodes_NaN:
  assumes "lib_sin L (- (5030569068109113 / 2 ^ 55)) = - (5014239404989977 / 2 ^ 55)"
    and "lib_sin L (884279719003555 / 2 ^ 49) = 1"
    and "lib_cos L (5030569068109113 / 2 ^ 55) = 4459770905381437 / 2 ^ 52"
    and "lib_cos L (- (5030569068109113 / 2 ^ 55)) = 4459770905381437 / 2 ^ 52"
  shows "haversine_double L (Num 8) (Num (- 180)) (Num (- 8)) (Num 0) = NaN"
proof -
  have k: "ddiv (Num PI_double) (Num 180) = Num (5030569068109113 / 2 ^ 58)"
    by (simp only: ddiv_def lift2.simps PI_double_def dbl_steps)
  have dLat: "ddiv (deg2rad_double (dsub (Num (- 8)) (Num 8))) (Num 2) =
      Num (- (5030569068109113 / 2 ^ 55))"
    unfolding deg2rad_double_def k
    by (simp only: dsub_def dmul_def ddiv_def lift2.simps dbl_steps)
  have dLon: "ddiv (deg2rad_double (dsub (Num 0) (Num (- 180)))) (Num 2) =
      Num (884279719003555 / 2 ^ 49)"
    unfolding deg2rad_double_def k
    by (simp only: dsub_def dmul_def ddiv_def lift2.simps dbl_steps)
  have r1: "deg2rad_double (Num 8) = Num (5030569068109113 / 2 ^ 55)"
    unfolding deg2rad_double_def k
    by (simp only: dmul_def lift2.simps dbl_steps)
  have r2: "deg2rad_double (Num (- 8)) = Num (- (5030569068109113 / 2 ^ 55))"
    unfolding deg2rad_double_def k
    by (simp only: dmul_def lift2.simps dbl_steps)
  have q1: "dsq (lift1 (lib_sin L) (Num (- (5030569068109113 / 2 ^ 55)))) =
      Num (1395694493897217 / 2 ^ 56)"
    by (simp only: dsq_def lift1.simps assms dbl_steps)
  have q2: "dsq (lift1 (lib_sin L) (Num (884279719003555 / 2 ^ 49))) = Num 1"
    by (simp only: dsq_def lift1.simps assms dbl_steps)
  have cc: "dmul (lift1 (lib_cos L) (Num (5030569068109113 / 2 ^ 55)))
      (lift1 (lib_cos L) (Num (- (5030569068109113 / 2 ^ 55)))) =
      Num (8832737443003841 / 2 ^ 53)"
    by (simp only: dmul_def lift1.simps lift2.simps assms dbl_steps)
  have a: "dadd (Num (1395694493897217 / 2 ^ 56))
      (dmul (Num (8832737443003841 / 2 ^ 53)) (Num 1)) = Num (4503599627370497 / 2 ^ 52)"
    by (simp only: dadd_def dmul_def lift2.simps dbl_steps)
  have "dsub (Num 1) (Num (4503599627370497 / 2 ^ 52)) = Num (- (1 / 2 ^ 52))"
    by (simp only: dsub_def lift2.simps dbl_steps)
  then have n: "dsqrt (dsub (Num 1) (Num (4503599627370497 / 2 ^ 52))) = NaN"
    by simp
  show ?thesis
    unfolding haversine_double_def Let_def dLat dLon r1 r2 q1 q2 cc a n
    by (cases "dsqrt (Num (4503599627370497 / 2 ^ 52))") (simp_all add: dmul_def)
qed

theorem haversine_double_antipodes_NaN_witness:
  "lib_sin fdlibm_at_8_degrees (- (5030569068109113 / 2 ^ 55)) = - (5014239404989977 / 2 ^ 55)
   \<and> lib_sin fdlibm_at_8_degrees (884279719003555 / 2 ^ 49) = 1
   \<and> lib_cos fdlibm_at_8_degrees (5030569068109113 / 2 ^ 55) = 4459770905381437 / 2 ^ 52
   \<and> lib_cos fdlibm_at_8_degrees (- (5030569068109113 / 2 ^ 55)) = 4459770905381437 / 2 ^ 52
   \<and> haversine_double fdlibm_at_8_degrees (Num 8) (Num (- 180)) (Num (- 8)) (Num 0) = NaN"
proof -
  have h: "lib_sin fdlibm_at_8_degrees (- (5030569068109113 / 2 ^ 55)) =
      - (5014239404989977 / 2 ^ 55)"
    "lib_sin fdlibm_at_8_degrees (884279719003555 / 2 ^ 49) = 1"
    "lib_cos fdlibm_at_8_degrees (5030569068109113 / 2 ^ 55) = 4459770905381437 / 2 ^ 52"
    "lib_cos fdlibm_at_8_degrees (- (5030569068109113 / 2 ^ 55)) = 4459770905381437 / 2 ^ 52"
    by (simp_all add: fdlibm_at_8_degrees_def)
  from h haversine_double_antipodes_NaN [OF h]
  show ?thesis by (simp only: simp_thms)
qed

section \<open>What each call does to the state\<close>

lemma emit_fields [simp]:
  "trace (emit es w) = trace w @ es"
  "notified (emit es w) = notified w"
  "destLat (emit es w) = destLat w"
  "destLng (emit es w) = destLng w"
  "watchId (emit es w) = watchId w"
  "isTracking (emit es w) = isTracking w"
  "trackingStartTime (emit es w) = trackingStartTime w"
  "wakeLock (emit es w) = wakeLock w"
  "watches (emit es w) = watches w"
  "tripHistory (emit es w) = tripHistory w"
  "destination (emit es w) = destination w"
  by (simp_all add: emit_def)

lemma show_eq: "NotificationSystem_show m ty d imp w = emit (show_events m ty d imp) w"
  by (simp add: NotificationSystem_show_def show_events_def emit_def Let_def)

lemma stopTracking_eq:
  "stopTracking w =
     w\<lparr>isTracking := False,
       watchId := (if truthy_id (watchId w) then None else watchId w),
       watches := cleared (watchId w) (watches w),
       wakeLock := False,
       trace := trace w @ stop_events w\<rparr>"
  by (cases w)
    (simp add: stopTracking_def releaseWakeLock_def stop_events_def clear_events_def cleared_def
      emit_def Let_def split: option.splits)

lemma startPositionTracking_eq:
  "startPositionTracking n w =
     w\<lparr>isTracking := True, watchId := Some n,
       watches := insert n (cleared (watchId w) (watches w)),
       trace := trace w @ clear_events (watchId w) @ [WatchPosition n]\<rparr>"
  by (cases w)
    (simp add: startPositionTracking_def clear_events_def cleared_def emit_def Let_def
      split: option.splits)

lemma reset_eq:
  "reset w =
     w\<lparr>notified := Map.empty, isTracking := False, trackingStartTime := None,
       watchId := (if truthy_id (watchId w) then None else watchId w),
       watches := cleared (watchId w) (watches w),
       trace := trace w @ clear_events (watchId w)\<rparr>"
  by (cases w)
    (simp add: reset_def clear_events_def cleared_def emit_def Let_def split: option.splits)

lemma saveTripHistory_eq:
  "saveTripHistory dest distance duration now tid w =
     w\<lparr>tripHistory :=
         take maxTrips
           (\<lparr>trip_id = tid, trip_destination = dest,
             trip_distance = parseFloat_toFixed2 distance,
             trip_duration = duration, trip_timestamp = now\<rparr> # tripHistory w),
       trace := trace w @ StoreTrips #
         show_events (''Trip saved: '' @ string_or_null dest @ '' ('' @ toFixed2 distance @ '' km)'')
           Success durations_medium False\<rparr>"
  by (cases w) (simp add: saveTripHistory_def show_eq emit_def Let_def)

lemma handleArrival_eq:
  "handleArrival distance now tid w =
     w\<lparr>notified := (notified w)(''arrived'' \<mapsto> True),
       tripHistory := take maxTrips (new_trip distance now tid w # tripHistory w),
       isTracking := False,
       watchId := (if truthy_id (watchId w) then None else watchId w),
       watches := cleared (watchId w) (watches w),
       wakeLock := False,
       trace := trace w @ arrival_events distance now w\<rparr>"
  by (cases w)
    (simp add: handleArrival_def show_eq saveTripHistory_eq stopTracking_eq emit_def Let_def
      arrival_events_def stop_events_def new_trip_def)

lemma evaluate_chain:
  "evaluate d n =
     (if jlt d distances_arrived \<and> \<not> flagged n ''arrived'' then Some Arrived
      else if jlt d distances_close \<and> \<not> flagged n ''500m'' then Some Close
      else if jlt d distances_near \<and> \<not> flagged n ''1km'' then Some Near
      else if jlt d distances_approaching \<and> \<not> flagged n ''2km'' then Some Approaching
      else None)"
  by (simp add: evaluate_def strict_to_loose_def distances_arrived_def distances_close_def
      distances_near_def distances_approaching_def)

lemma evaluate_unflagged: "evaluate d n = Some t \<Longrightarrow> \<not> flagged n (key t)"
  by (auto simp: evaluate_def find_Some_iff)

lemma checkNotifications_at_None:
  "evaluate d (notified w) = None \<Longrightarrow> checkNotifications_at d now tid w = w"
  by (auto simp: evaluate_chain checkNotifications_at_def split: if_splits)

lemma checkNotifications_at_Arrived:
  "evaluate d (notified w) = Some Arrived \<Longrightarrow>
   checkNotifications_at d now tid w = handleArrival d now tid w"
  by (auto simp: evaluate_chain checkNotifications_at_def split: if_splits)

lemma checkNotifications_at_other:
  assumes "evaluate d (notified w) = Some t" and "t \<noteq> Arrived"
  shows "checkNotifications_at d now tid w =
     w\<lparr>notified := (notified w)(key t \<mapsto> True),
       trace := trace w @ fire_events t d now w\<rparr>"
proof -
  let ?c1 = "jlt d distances_arrived \<and> \<not> flagged (notified w) ''arrived''"
  let ?c2 = "jlt d distances_close \<and> \<not> flagged (notified w) ''500m''"
  let ?c3 = "jlt d distances_near \<and> \<not> flagged (notified w) ''1km''"
  let ?c4 = "jlt d distances_approaching \<and> \<not> flagged (notified w) ''2km''"
  have n1: "?c1 = False"
    using assms by (auto simp: evaluate_chain split: if_splits)
  show ?thesis
  proof (cases t)
    case Arrived
    with assms show ?thesis by simp
  next
    case Close
    with assms n1 have c: "?c2 = True"
      by (auto simp: evaluate_chain split: if_splits)
    show ?thesis
      unfolding checkNotifications_at_def n1 c if_False if_True
      by (cases w) (simp add: Close show_eq emit_def fire_events_def)
  next
    case Near
    with assms n1 have c: "?c2 = False" "?c3 = True"
      by (auto simp: evaluate_chain split: if_splits)
    show ?thesis
      unfolding checkNotifications_at_def n1 c if_False if_True
      by (cases w) (simp add: Near show_eq emit_def fire_events_def)
  next
    case Approaching
    with assms n1 have c: "?c2 = False" "?c3 = False" "?c4 = True"
      by (auto simp: evaluate_chain split: if_splits)
    show ?thesis
      unfolding checkNotifications_at_def n1 c if_False if_True
      by (cases w) (simp add: Approaching show_eq emit_def fire_events_def)
  qed
qed

lemma checkNotifications_at_trace:
  "trace (checkNotifications_at d now tid w) =
     trace w @ (case evaluate d (notified w) of None \<Rightarrow> [] | Some t \<Rightarrow> fire_events t d now w)"
proof (cases "evaluate d (notified w)")
  case None
  then show ?thesis by (simp add: checkNotifications_at_None)
next
  case (Some t)
  then show ?thesis
    by (cases "t = Arrived")
      (simp_all add: checkNotifications_at_Arrived checkNotifications_at_other handleArrival_eq
        fire_events_def)
qed

lemma checkNotifications_at_notified:
  "notified (checkNotifications_at d now tid w) =
     (case evaluate d (notified w) of None \<Rightarrow> notified w
      | Some t \<Rightarrow> (notified w)(key t \<mapsto> True))"
proof (cases "evaluate d (notified w)")
  case None
  then show ?thesis by (simp add: checkNotifications_at_None)
next
  case (Some t)
  then show ?thesis
    by (cases "t = Arrived")
      (simp_all add: checkNotifications_at_Arrived checkNotifications_at_other handleArrival_eq)
qed

lemma emitted_eq: "trace (f w) = trace w @ es \<Longrightarrow> emitted f w = es"
  by (simp add: emitted_def)

lemma checkNotifications_at_emitted:
  "emitted (checkNotifications_at d now tid) w =
     (case evaluate d (notified w) of None \<Rightarrow> [] | Some t \<Rightarrow> fire_events t d now w)"
  by (rule emitted_eq) (rule checkNotifications_at_trace)

section \<open>What a trace shows\<close>

lemma marks_append: "marks (xs @ ys) = marks xs @ marks ys"
  by (induction xs rule: marks.induct) simp_all

lemma alerts_append: "alerts (xs @ ys) = alerts xs @ alerts ys"
  by (induction xs rule: alerts.induct) (simp_all split: option.splits)

lemma marks_show [simp]: "marks (show_events m ty d imp) = []"
  by (simp add: show_events_def)

lemma alerts_show:
  "alerts (show_events m ty d imp) = (case alert_of_message m of Some t \<Rightarrow> [t] | None \<Rightarrow> [])"
  by (simp add: show_events_def split: option.splits)

lemma marks_clear [simp]: "marks (clear_events i) = []"
  by (simp add: clear_events_def split: option.splits)

lemma alerts_clear [simp]: "alerts (clear_events i) = []"
  by (simp add: clear_events_def split: option.splits)

lemma marks_stop [simp]: "marks (stop_events w) = []"
  by (simp add: stop_events_def marks_append)

lemma alerts_stop [simp]: "alerts (stop_events w) = []"
  by (simp add: stop_events_def alerts_append)

lemma alert_of_arrived [simp]: "alert_of_message (arrived_message n) = Some Arrived"
  by (simp add: alert_of_message_def arrived_message_def)

lemma alert_of_saved [simp]: "alert_of_message (CHR ''T'' # x) = None"
  by (simp add: alert_of_message_def)

lemma marks_fire: "marks (fire_events t d now w) = [key t]"
  by (cases t) (simp_all add: fire_events_def arrival_events_def marks_append)

lemma alert_of_others [simp]:
  "alert_of_message ''500 meters remaining to destination'' = Some Close"
  "alert_of_message ''1 kilometer remaining to destination'' = Some Near"
  "alert_of_message ''2 kilometers remaining to destination'' = Some Approaching"
  by (simp_all add: alert_of_message_def)

lemma alerts_fire: "alerts (fire_events t d now w) = [t]"
  by (cases t) (simp_all add: fire_events_def arrival_events_def alerts_append alerts_show)


section \<open>The tracker of script.js\<close>

lemma legacy_checkNotifications_eq:
  "legacy_checkNotifications d now s =
     (case evaluate d (l_notified s) of
        None \<Rightarrow> s
      | Some t \<Rightarrow>
          s\<lparr>l_notified := (l_notified s)(key t \<mapsto> True),
            l_trips :=
              (if t = Arrived
               then l_trips s @
                 [\<lparr>lt_destination = l_destination s, lt_distance = toFixed2 d, lt_time = now\<rparr>]
               else l_trips s),
            l_trace := l_trace s @ legacy_fire_events t s\<rparr>)"
proof -
  let ?c1 = "jlt d (Num (5404319552844595 / 2 ^ 54)) \<and> \<not> flagged (l_notified s) ''arrived''"
  let ?c2 = "jlt d (Num (75 / 100)) \<and> \<not> flagged (l_notified s) ''500m''"
  let ?c3 = "jlt d (Num 1) \<and> \<not> flagged (l_notified s) ''1km''"
  let ?c4 = "jlt d (Num 2) \<and> \<not> flagged (l_notified s) ''2km''"
  have ev: "evaluate d (l_notified s) =
      (if ?c1 then Some Arrived else if ?c2 then Some Close else if ?c3 then Some Near
       else if ?c4 then Some Approaching else None)"
    by (simp add: evaluate_def strict_to_loose_def)
  have inc: "str_includes ''You've arrived!'' ''arrived''"
    by (simp add: str_includes_def sublist_Cons_right)
  have ninc: "\<not> str_includes ''500m remaining'' ''arrived''"
    "\<not> str_includes ''1km remaining'' ''arrived''"
    "\<not> str_includes ''2km remaining'' ''arrived''"
    by (simp_all add: str_includes_def sublist_Cons_right)
  consider (a) "?c1 = True"
    | (b) "?c1 = False" "?c2 = True"
    | (c) "?c1 = False" "?c2 = False" "?c3 = True"
    | (d) "?c1 = False" "?c2 = False" "?c3 = False" "?c4 = True"
    | (e) "?c1 = False" "?c2 = False" "?c3 = False" "?c4 = False"
    by blast
  then show ?thesis
  proof cases
    case a
    show ?thesis
      unfolding legacy_checkNotifications_def ev a if_True
      by (cases s)
        (simp add: notify_def legacy_saveTripHistory_def legacy_fire_events_def inc Let_def)
  next
    case b
    show ?thesis
      unfolding legacy_checkNotifications_def ev b if_True if_False
      by (cases s) (simp add: notify_def legacy_fire_events_def ninc Let_def)
  next
    case c
    show ?thesis
      unfolding legacy_checkNotifications_def ev c if_True if_False
      by (cases s) (simp add: notify_def legacy_fire_events_def ninc Let_def)
  next
    case d
    show ?thesis
      unfolding legacy_checkNotifications_def ev d if_True if_False
      by (cases s) (simp add: notify_def legacy_fire_events_def ninc Let_def)
  next
    case e
    show ?thesis
      unfolding legacy_checkNotifications_def ev e if_False
      by simp
  qed
qed

lemma legacy_emitted_eq:
  "legacy_emitted (legacy_checkNotifications d now) s =
     (case evaluate d (l_notified s) of None \<Rightarrow> [] | Some t \<Rightarrow> legacy_fire_events t s)"
  by (simp add: legacy_emitted_def legacy_checkNotifications_eq split: option.splits)

lemma alert_of_legacy [simp]:
  "alert_of_message ''You've arrived!'' = Some Arrived"
  "alert_of_message ''500m remaining'' = Some Close"
  "alert_of_message ''1km remaining'' = Some Near"
  "alert_of_message ''2km remaining'' = Some Approaching"
  by (simp_all add: alert_of_message_def)

lemma marks_legacy_fire: "marks (legacy_fire_events t s) = [key t]"
  by (cases t) (simp_all add: legacy_fire_events_def)

lemma alerts_legacy_fire: "alerts (legacy_fire_events t s) = [t]"
  by (cases t) (simp_all add: legacy_fire_events_def)

lemma not_includes_arrived:
  "\<not> str_includes ''500 meters remaining to destination'' ''arrived''"
  "\<not> str_includes ''1 kilometer remaining to destination'' ''arrived''"
  "\<not> str_includes ''2 kilometers remaining to destination'' ''arrived''"
  by (simp_all add: str_includes_def sublist_Cons_right)

lemma includes_arrived: "str_includes (arrived_message n) ''arrived''"
  by (simp add: str_includes_def arrived_message_def sublist_Cons_right)

section \<open>Which threshold fires\<close>

text \<open>
  Claim C1, as the code has it.  One call of \<open>checkNotifications\<close> does nothing, or
  dispatches the alert of one threshold and writes its flag (\<open>fire_events\<close> lists the events
  of that threshold, channel by channel).  It puts at most one threshold
  alert on screen and writes at most one flag: those of the first threshold, from
  \<open>Arrived\<close> to \<open>Approaching\<close>, whose boundary is strictly greater than the distance and
  whose flag is not yet set; none when there is no such threshold.  A distance inside
  the arrived radius with the \<open>arrived\<close> flag unset fires \<open>Arrived\<close> alone.  The same holds of
  \<open>checkNotifications\<close> in \<^verbatim>\<open>script.js\<close>.  The boundaries are the doubles the source
  compares with: 0.75, 1 and 2, and for the arrival radius the double that \<^verbatim>\<open>0.3\<close> denotes.
\<close>

theorem checkNotifications_fires_first_strict:
  "emitted (checkNotifications_at d now tid) w =
     (case evaluate d (notified w) of None \<Rightarrow> [] | Some t \<Rightarrow> fire_events t d now w)
   \<and> alerts (emitted (checkNotifications_at d now tid) w) =
     (case evaluate d (notified w) of None \<Rightarrow> [] | Some t \<Rightarrow> [t])
   \<and> marks (emitted (checkNotifications_at d now tid) w) =
     (case evaluate d (notified w) of None \<Rightarrow> [] | Some t \<Rightarrow> [key t])
   \<and> notified (checkNotifications_at d now tid w) =
     (case evaluate d (notified w) of None \<Rightarrow> notified w
      | Some t \<Rightarrow> (notified w)(key t \<mapsto> True))
   \<and> checkNotifications lat lng now tid w =
     checkNotifications_at (haversine lat lng (destLat w) (destLng w)) now tid w
   \<and> (jlt d distances_arrived \<and> \<not> flagged (notified w) ''arrived'' \<longrightarrow>
        alerts (emitted (checkNotifications_at d now tid) w) = [Arrived] \<and>
        marks (emitted (checkNotifications_at d now tid) w) = [''arrived''])
   \<and> legacy_emitted (legacy_checkNotifications d now) s =
     (case evaluate d (l_notified s) of None \<Rightarrow> [] | Some t \<Rightarrow> legacy_fire_events t s)
   \<and> alerts (legacy_emitted (legacy_checkNotifications d now) s) =
     (case evaluate d (l_notified s) of None \<Rightarrow> [] | Some t \<Rightarrow> [t])
   \<and> marks (legacy_emitted (legacy_checkNotifications d now) s) =
     (case evaluate d (l_notified s) of None \<Rightarrow> [] | Some t \<Rightarrow> [key t])"
proof -
  have a: "alerts (emitted (checkNotifications_at d now tid) w) =
      (case evaluate d (notified w) of None \<Rightarrow> [] | Some t \<Rightarrow> [t])"
    by (simp add: checkNotifications_at_emitted alerts_fire split: option.splits)
  have m: "marks (emitted (checkNotifications_at d now tid) w) =
      (case evaluate d (notified w) of None \<Rightarrow> [] | Some t \<Rightarrow> [key t])"
    by (simp add: checkNotifications_at_emitted marks_fire split: option.splits)
  have c: "checkNotifications lat lng now tid w =
      checkNotifications_at (haversine lat lng (destLat w) (destLng w)) now tid w"
    by (simp add: checkNotifications_def)
  have f: "jlt d distances_arrived \<and> \<not> flagged (notified w) ''arrived'' \<longrightarrow>
      evaluate d (notified w) = Some Arrived"
    by (simp add: evaluate_chain)
  have la: "alerts (legacy_emitted (legacy_checkNotifications d now) s) =
      (case evaluate d (l_notified s) of None \<Rightarrow> [] | Some t \<Rightarrow> [t])"
    by (simp add: legacy_emitted_eq alerts_legacy_fire split: option.splits)
  have lm: "marks (legacy_emitted (legacy_checkNotifications d now) s) =
      (case evaluate d (l_notified s) of None \<Rightarrow> [] | Some t \<Rightarrow> [key t])"
    by (simp add: legacy_emitted_eq marks_legacy_fire split: option.splits)
  from f have f': "jlt d distances_arrived \<and> \<not> flagged (notified w) ''arrived'' \<longrightarrow>
        alerts (emitted (checkNotifications_at d now tid) w) = [Arrived] \<and>
        marks (emitted (checkNotifications_at d now tid) w) = [''arrived'']"
    by (simp add: a m)
  show ?thesis
    by (intro conjI)
      (rule checkNotifications_at_emitted a m checkNotifications_at_notified c f'
        legacy_emitted_eq la lm)+
qed

theorem checkNotifications_fires_first_strict_witness:
  "jlt (Num (1 / 8)) distances_arrived
   \<and> \<not> flagged (notified (AppState_new False [] None)) ''arrived''
   \<and> alerts (emitted (checkNotifications_at (Num (1 / 8)) 0 [] ) (AppState_new False [] None))
       = [Arrived]
   \<and> marks (emitted (checkNotifications_at (Num (1 / 8)) 0 [] ) (AppState_new False [] None))
       = [''arrived'']"
proof -
  have h: "jlt (Num (1 / 8)) distances_arrived
      \<and> \<not> flagged (notified (AppState_new False [] None)) ''arrived''"
    by (simp add: jlt_def distances_arrived_def flagged_def AppState_new_def)
  from h checkNotifications_fires_first_strict
      [of "Num (1 / 8)" 0 "[]" "AppState_new False [] None"]
  show ?thesis by blast
qed

text \<open>
  The claim as written takes the boundary with \<open>\<ge>\<close>.  The arrival radius \<^verbatim>\<open>0.3\<close> is the
  double \<open>5404319552844595 / 2\<^sup>5\<^sup>4\<close>.  At a distance of exactly that double and no flag set,
  that reading picks \<open>Arrived\<close>, while the code of both files alerts for \<open>Close\<close> and sets
  the flag \<open>500m\<close>.  At exactly 2 km that reading picks \<open>Approaching\<close>, while the code
  does nothing.
\<close>

theorem checkNotifications_at_boundary_counterexample:
  "spec_evaluate (Num (5404319552844595 / 2 ^ 54)) (notified (AppState_new False [] None))
       = Some Arrived
   \<and> emitted (checkNotifications_at (Num (5404319552844595 / 2 ^ 54)) 0 [])
         (AppState_new False [] None) =
       [InApp ''500 meters remaining to destination'' Warning 4000,
        Native ''500 meters remaining to destination'' Warning,
        Vibrate Warning,
        SetNotified ''500m'']
   \<and> legacy_emitted (legacy_checkNotifications (Num (5404319552844595 / 2 ^ 54)) 0)
         (legacy_new [] None True) =
       [AlertBox ''500m remaining'', SetNotified ''500m'']
   \<and> spec_evaluate (Num 2) (notified (AppState_new False [] None)) = Some Approaching
   \<and> emitted (checkNotifications_at (Num 2) 0 []) (AppState_new False [] None) = []
   \<and> legacy_emitted (legacy_checkNotifications (Num 2) 0) (legacy_new [] None True) = []"
proof -
  let ?r = "Num (5404319552844595 / 2 ^ 54)"
  have e: "evaluate ?r (notified (AppState_new False [] None)) = Some Close"
    "evaluate ?r (l_notified (legacy_new [] None True)) = Some Close"
    by (simp_all add: evaluate_def strict_to_loose_def jlt_def flagged_def AppState_new_def
        legacy_new_def)
  have s: "spec_evaluate ?r (notified (AppState_new False [] None)) = Some Arrived"
    by (simp add: spec_evaluate_def strict_to_loose_def jge_def flagged_def AppState_new_def)
  have e2: "evaluate (Num 2) (notified (AppState_new False [] None)) = None"
    "evaluate (Num 2) (l_notified (legacy_new [] None True)) = None"
    by (simp_all add: evaluate_def strict_to_loose_def jlt_def flagged_def AppState_new_def
        legacy_new_def)
  have s2: "spec_evaluate (Num 2) (notified (AppState_new False [] None)) = Some Approaching"
    by (simp add: spec_evaluate_def strict_to_loose_def jge_def flagged_def AppState_new_def)
  have c: "emitted (checkNotifications_at ?r 0 []) (AppState_new False [] None) =
       [InApp ''500 meters remaining to destination'' Warning 4000,
        Native ''500 meters remaining to destination'' Warning,
        Vibrate Warning,
        SetNotified ''500m'']"
    unfolding checkNotifications_at_emitted e
    by (simp add: fire_events_def show_events_def not_includes_arrived durations_medium_def)
  have l: "legacy_emitted (legacy_checkNotifications ?r 0) (legacy_new [] None True) =
       [AlertBox ''500m remaining'', SetNotified ''500m'']"
    unfolding legacy_emitted_eq e
    by (simp add: legacy_fire_events_def)
  have c2: "emitted (checkNotifications_at (Num 2) 0 []) (AppState_new False [] None) = []"
    unfolding checkNotifications_at_emitted e2
    by simp
  have l2: "legacy_emitted (legacy_checkNotifications (Num 2) 0) (legacy_new [] None True) = []"
    unfolding legacy_emitted_eq e2
    by simp
  from s c l s2 c2 l2 show ?thesis
    by (simp only: simp_thms)
qed


section \<open>The order of alert and flag\<close>

lemma marks_Nil_notin: "marks es = [] \<Longrightarrow> SetNotified k \<notin> set es"
  by (induction es rule: marks.induct) simp_all

lemma before_mark_split:
  assumes "marks pre = []"
  shows "before_mark k (pre @ SetNotified k # post) = pre"
proof -
  have "\<forall>e\<in>set pre. e \<noteq> SetNotified k"
    using marks_Nil_notin [OF assms, of k] by blast
  then show ?thesis
    by (simp add: before_mark_def)
qed

lemma after_mark_split:
  assumes "marks pre = []"
  shows "after_mark k (pre @ SetNotified k # post) = post"
proof -
  have "\<forall>e\<in>set pre. e \<noteq> SetNotified k"
    using marks_Nil_notin [OF assms, of k] by blast
  then show ?thesis
    by (simp add: after_mark_def)
qed

lemma dispatch_stop: "filter is_dispatch (stop_events w) = []"
  by (simp add: stop_events_def clear_events_def split: option.splits)

lemma fire_events_split:
  "\<exists>pre post. fire_events t d now w = pre @ SetNotified (key t) # post \<and>
     marks pre = [] \<and> alerts pre = [t] \<and> list_ex is_inapp pre \<and>
     (list_ex is_native pre \<longleftrightarrow> t \<noteq> Approaching) \<and>
     (list_ex is_vibrate pre \<longleftrightarrow> t \<noteq> Approaching) \<and>
     (list_ex is_sound pre \<longleftrightarrow> t = Arrived) \<and>
     filter is_dispatch post = [] \<and> alerts post = [] \<and> marks post = []"
proof (cases t)
  case Arrived
  let ?pre = "show_events (arrived_message (tripDuration (trackingStartTime w) now)) Success
       durations_persistent True @
     StoreTrips #
     show_events
       (''Trip saved: '' @ string_or_null (destination w) @ '' ('' @ toFixed2 d @ '' km)'')
       Success durations_medium False"
  have "fire_events t d now w = ?pre @ SetNotified (key t) # stop_events w"
    by (simp add: Arrived fire_events_def arrival_events_def)
  moreover have "marks ?pre = []" "alerts ?pre = [t]"
    by (simp_all add: Arrived alerts_append alerts_show marks_append)
  moreover have "list_ex is_inapp ?pre" "list_ex is_native ?pre" "list_ex is_vibrate ?pre"
    "list_ex is_sound ?pre"
    by (simp_all add: show_events_def includes_arrived)
  ultimately show ?thesis
    using Arrived dispatch_stop [of w] alerts_stop [of w] marks_stop [of w] by blast
next
  case Close
  let ?pre = "show_events ''500 meters remaining to destination'' Warning durations_medium True"
  have "fire_events t d now w = ?pre @ SetNotified (key t) # []"
    by (simp add: Close fire_events_def)
  moreover have "marks ?pre = []" "alerts ?pre = [t]"
    by (simp_all add: Close alerts_show)
  moreover have "list_ex is_inapp ?pre" "list_ex is_native ?pre" "list_ex is_vibrate ?pre"
    "\<not> list_ex is_sound ?pre"
    by (simp_all add: show_events_def not_includes_arrived)
  moreover have "filter is_dispatch [] = []" "alerts [] = []" "marks [] = []"
    by simp_all
  ultimately show ?thesis
    using Close by blast
next
  case Near
  let ?pre = "show_events ''1 kilometer remaining to destination'' Info durations_medium True"
  have "fire_events t d now w = ?pre @ SetNotified (key t) # []"
    by (simp add: Near fire_events_def)
  moreover have "marks ?pre = []" "alerts ?pre = [t]"
    by (simp_all add: Near alerts_show)
  moreover have "list_ex is_inapp ?pre" "list_ex is_native ?pre" "list_ex is_vibrate ?pre"
    "\<not> list_ex is_sound ?pre"
    by (simp_all add: show_events_def not_includes_arrived)
  moreover have "filter is_dispatch [] = []" "alerts [] = []" "marks [] = []"
    by simp_all
  ultimately show ?thesis
    using Near by blast
next
  case Approaching
  let ?pre = "show_events ''2 kilometers remaining to destination'' Info durations_short False"
  have "fire_events t d now w = ?pre @ SetNotified (key t) # []"
    by (simp add: Approaching fire_events_def)
  moreover have "marks ?pre = []" "alerts ?pre = [t]"
    by (simp_all add: Approaching alerts_show)
  moreover have "list_ex is_inapp ?pre" "\<not> list_ex is_native ?pre" "\<not> list_ex is_vibrate ?pre"
    "\<not> list_ex is_sound ?pre"
    by (simp_all add: show_events_def)
  moreover have "filter is_dispatch [] = []" "alerts [] = []" "marks [] = []"
    by simp_all
  ultimately show ?thesis
    using Approaching by blast
qed

lemma legacy_fire_events_split:
  "\<exists>pre. legacy_fire_events t s = pre @ SetNotified (key t) # [] \<and>
     marks pre = [] \<and> alerts pre = [t] \<and>
     (AlarmPlay \<in> set pre \<longleftrightarrow> t = Arrived \<and> l_alarm s)"
proof (cases t)
  case Arrived
  let ?pre = "AlertBox ''You've arrived!'' # (if l_alarm s then [AlarmPlay] else []) @ [StoreTrips]"
  have "legacy_fire_events t s = ?pre @ SetNotified (key t) # []"
    by (simp add: Arrived legacy_fire_events_def)
  moreover have "marks ?pre = []" "alerts ?pre = [t]" "AlarmPlay \<in> set ?pre \<longleftrightarrow> l_alarm s"
    by (simp_all add: Arrived)
  ultimately show ?thesis
    using Arrived by blast
next
  case Close
  have "legacy_fire_events t s = [AlertBox ''500m remaining''] @ SetNotified (key t) # []"
    by (simp add: Close legacy_fire_events_def)
  moreover have "marks [AlertBox ''500m remaining''] = []"
    "alerts [AlertBox ''500m remaining''] = [t]"
    "AlarmPlay \<notin> set [AlertBox ''500m remaining'']"
    by (simp_all add: Close)
  ultimately show ?thesis
    using Close by blast
next
  case Near
  have "legacy_fire_events t s = [AlertBox ''1km remaining''] @ SetNotified (key t) # []"
    by (simp add: Near legacy_fire_events_def)
  moreover have "marks [AlertBox ''1km remaining''] = []"
    "alerts [AlertBox ''1km remaining''] = [t]"
    "AlarmPlay \<notin> set [AlertBox ''1km remaining'']"
    by (simp_all add: Near)
  ultimately show ?thesis
    using Near by blast
next
  case Approaching
  have "legacy_fire_events t s = [AlertBox ''2km remaining''] @ SetNotified (key t) # []"
    by (simp add: Approaching legacy_fire_events_def)
  moreover have "marks [AlertBox ''2km remaining''] = []"
    "alerts [AlertBox ''2km remaining''] = [t]"
    "AlarmPlay \<notin> set [AlertBox ''2km remaining'']"
    by (simp_all add: Approaching)
  ultimately show ?thesis
    using Approaching by blast
qed

lemma split_order:
  assumes "es = pre @ SetNotified k # post" "marks pre = []"
  shows "SetNotified k \<in> set es" "before_mark k es = pre" "after_mark k es = post"
  using assms by (simp_all add: before_mark_split after_mark_split)

lemma dispatch_before:
  assumes "es = pre @ SetNotified k # post" "filter is_dispatch post = []"
  shows "filter is_dispatch pre = filter is_dispatch es"
  using assms by simp

text \<open>
  Claim C2, as the code has it.  When a call of \<open>checkNotifications\<close> fires a threshold, it
  writes the flag of that threshold in the same call, after the alert.  Every dispatch of
  the call, on whatever channel, is among the events before the write: the banner of the
  threshold and of no other threshold, the system notification and the vibration for all
  but \<open>Approaching\<close>, the sound for \<open>Arrived\<close>.  Nothing is dispatched on any channel after
  the write, no other flag is written, and the flag is set when the call returns.  In
  \<^verbatim>\<open>script.js\<close> the alert box, and with it the alarm on arrival, come before the write,
  and the write is the last event of the call.
\<close>

theorem checkNotifications_marks_after_alert:
  "(evaluate d (notified w) = Some t \<longrightarrow>
      SetNotified (key t) \<in> set (emitted (checkNotifications_at d now tid) w) \<and>
      filter is_dispatch (before_mark (key t) (emitted (checkNotifications_at d now tid) w)) =
        filter is_dispatch (emitted (checkNotifications_at d now tid) w) \<and>
      alerts (before_mark (key t) (emitted (checkNotifications_at d now tid) w)) = [t] \<and>
      list_ex is_inapp (before_mark (key t) (emitted (checkNotifications_at d now tid) w)) \<and>
      (list_ex is_native (before_mark (key t) (emitted (checkNotifications_at d now tid) w))
         \<longleftrightarrow> t \<noteq> Approaching) \<and>
      (list_ex is_vibrate (before_mark (key t) (emitted (checkNotifications_at d now tid) w))
         \<longleftrightarrow> t \<noteq> Approaching) \<and>
      (list_ex is_sound (before_mark (key t) (emitted (checkNotifications_at d now tid) w))
         \<longleftrightarrow> t = Arrived) \<and>
      filter is_dispatch (after_mark (key t) (emitted (checkNotifications_at d now tid) w)) = [] \<and>
      alerts (after_mark (key t) (emitted (checkNotifications_at d now tid) w)) = [] \<and>
      marks (after_mark (key t) (emitted (checkNotifications_at d now tid) w)) = [] \<and>
      flagged (notified (checkNotifications_at d now tid w)) (key t))
   \<and> (evaluate d (l_notified s) = Some t \<longrightarrow>
      SetNotified (key t) \<in> set (legacy_emitted (legacy_checkNotifications d now) s) \<and>
      alerts (before_mark (key t) (legacy_emitted (legacy_checkNotifications d now) s)) = [t] \<and>
      (AlarmPlay \<in> set (before_mark (key t) (legacy_emitted (legacy_checkNotifications d now) s))
         \<longleftrightarrow> t = Arrived \<and> l_alarm s) \<and>
      after_mark (key t) (legacy_emitted (legacy_checkNotifications d now) s) = [] \<and>
      flagged (l_notified (legacy_checkNotifications d now s)) (key t))"
proof (intro conjI impI)
  assume e: "evaluate d (notified w) = Some t"
  let ?es = "emitted (checkNotifications_at d now tid) w"
  from e have em: "?es = fire_events t d now w"
    by (simp add: checkNotifications_at_emitted)
  obtain pre post where sp: "fire_events t d now w = pre @ SetNotified (key t) # post"
    and pre: "marks pre = []" "alerts pre = [t]" "list_ex is_inapp pre"
      "list_ex is_native pre \<longleftrightarrow> t \<noteq> Approaching"
      "list_ex is_vibrate pre \<longleftrightarrow> t \<noteq> Approaching"
      "list_ex is_sound pre \<longleftrightarrow> t = Arrived"
    and post: "filter is_dispatch post = []" "alerts post = []" "marks post = []"
    using fire_events_split [of t d now w] by blast
  from sp em have es: "?es = pre @ SetNotified (key t) # post"
    by simp
  note so = split_order [OF es pre(1)]
  show "SetNotified (key t) \<in> set ?es"
    by (rule so(1))
  show "filter is_dispatch (before_mark (key t) ?es) = filter is_dispatch ?es"
    unfolding so(2) by (rule dispatch_before [OF es post(1)])
  show "alerts (before_mark (key t) ?es) = [t]"
    unfolding so(2) by (rule pre(2))
  show "list_ex is_inapp (before_mark (key t) ?es)"
    unfolding so(2) by (rule pre(3))
  show "list_ex is_native (before_mark (key t) ?es) \<longleftrightarrow> t \<noteq> Approaching"
    unfolding so(2) by (rule pre(4))
  show "list_ex is_vibrate (before_mark (key t) ?es) \<longleftrightarrow> t \<noteq> Approaching"
    unfolding so(2) by (rule pre(5))
  show "list_ex is_sound (before_mark (key t) ?es) \<longleftrightarrow> t = Arrived"
    unfolding so(2) by (rule pre(6))
  show "filter is_dispatch (after_mark (key t) ?es) = []"
    unfolding so(3) by (rule post(1))
  show "alerts (after_mark (key t) ?es) = []"
    unfolding so(3) by (rule post(2))
  show "marks (after_mark (key t) ?es) = []"
    unfolding so(3) by (rule post(3))
  from e show "flagged (notified (checkNotifications_at d now tid w)) (key t)"
    by (simp add: checkNotifications_at_notified flagged_def)
next
  assume e: "evaluate d (l_notified s) = Some t"
  let ?es = "legacy_emitted (legacy_checkNotifications d now) s"
  from e have em: "?es = legacy_fire_events t s"
    by (simp add: legacy_emitted_eq)
  obtain pre where sp: "legacy_fire_events t s = pre @ SetNotified (key t) # []"
    and pre: "marks pre = []" "alerts pre = [t]"
      "AlarmPlay \<in> set pre \<longleftrightarrow> t = Arrived \<and> l_alarm s"
    using legacy_fire_events_split [of t s] by blast
  from sp em have es: "?es = pre @ SetNotified (key t) # []"
    by simp
  note so = split_order [OF es pre(1)]
  show "SetNotified (key t) \<in> set ?es"
    by (rule so(1))
  show "alerts (before_mark (key t) ?es) = [t]"
    unfolding so(2) by (rule pre(2))
  show "AlarmPlay \<in> set (before_mark (key t) ?es) \<longleftrightarrow> t = Arrived \<and> l_alarm s"
    unfolding so(2) by (rule pre(3))
  show "after_mark (key t) ?es = []"
    by (rule so(3))
  from e show "flagged (l_notified (legacy_checkNotifications d now s)) (key t)"
    by (simp add: legacy_checkNotifications_eq flagged_def)
qed

theorem checkNotifications_marks_after_alert_witness:
  "evaluate (Num (1 / 2)) (notified (AppState_new False [] None)) = Some Close
   \<and> evaluate (Num (1 / 2)) (l_notified (legacy_new [] None True)) = Some Close
   \<and> alerts (before_mark ''500m''
        (emitted (checkNotifications_at (Num (1 / 2)) 0 []) (AppState_new False [] None))) = [Close]
   \<and> list_ex is_native (before_mark ''500m''
        (emitted (checkNotifications_at (Num (1 / 2)) 0 []) (AppState_new False [] None)))
   \<and> list_ex is_vibrate (before_mark ''500m''
        (emitted (checkNotifications_at (Num (1 / 2)) 0 []) (AppState_new False [] None)))
   \<and> filter is_dispatch (after_mark ''500m''
        (emitted (checkNotifications_at (Num (1 / 2)) 0 []) (AppState_new False [] None))) = []
   \<and> flagged (notified (checkNotifications_at (Num (1 / 2)) 0 [] (AppState_new False [] None)))
        ''500m''
   \<and> alerts (before_mark ''500m''
        (legacy_emitted (legacy_checkNotifications (Num (1 / 2)) 0) (legacy_new [] None True)))
        = [Close]
   \<and> after_mark ''500m''
        (legacy_emitted (legacy_checkNotifications (Num (1 / 2)) 0) (legacy_new [] None True)) = []"
proof -
  have h: "evaluate (Num (1 / 2)) (notified (AppState_new False [] None)) = Some Close"
    "evaluate (Num (1 / 2)) (l_notified (legacy_new [] None True)) = Some Close"
    by (simp_all add: evaluate_def strict_to_loose_def jlt_def flagged_def AppState_new_def
        legacy_new_def)
  from h checkNotifications_marks_after_alert
      [of "Num (1 / 2)" "AppState_new False [] None" Close 0 "[]" "legacy_new [] None True"]
  show ?thesis by simp
qed

text \<open>
  The claim as written has the flag written before the alert.  At 0.5 km and no flag
  set, the call shows the banner, asks for the system notification and the vibration,
  and only then writes the flag \<open>500m\<close>: the three dispatches are the events before the
  write.  \<^verbatim>\<open>script.js\<close> opens its alert box before it writes the flag.
\<close>

theorem checkNotifications_alert_first_counterexample:
  "emitted (checkNotifications_at (Num (1 / 2)) 0 []) (AppState_new False [] None) =
     [InApp ''500 meters remaining to destination'' Warning 4000,
      Native ''500 meters remaining to destination'' Warning,
      Vibrate Warning,
      SetNotified ''500m'']
   \<and> before_mark ''500m''
        (emitted (checkNotifications_at (Num (1 / 2)) 0 []) (AppState_new False [] None)) =
     [InApp ''500 meters remaining to destination'' Warning 4000,
      Native ''500 meters remaining to destination'' Warning,
      Vibrate Warning]
   \<and> alerts (before_mark ''500m''
        (emitted (checkNotifications_at (Num (1 / 2)) 0 []) (AppState_new False [] None)))
       = [Close]
   \<and> legacy_emitted (legacy_checkNotifications (Num (1 / 2)) 0) (legacy_new [] None True) =
     [AlertBox ''500m remaining'', SetNotified ''500m'']"
proof -
  have e: "evaluate (Num (1 / 2)) (notified (AppState_new False [] None)) = Some Close"
    "evaluate (Num (1 / 2)) (l_notified (legacy_new [] None True)) = Some Close"
    by (simp_all add: evaluate_def strict_to_loose_def jlt_def flagged_def AppState_new_def
        legacy_new_def)
  have c: "emitted (checkNotifications_at (Num (1 / 2)) 0 []) (AppState_new False [] None) =
     [InApp ''500 meters remaining to destination'' Warning 4000,
      Native ''500 meters remaining to destination'' Warning,
      Vibrate Warning,
      SetNotified ''500m'']"
    unfolding checkNotifications_at_emitted e
    by (simp add: fire_events_def show_events_def not_includes_arrived durations_medium_def)
  have l: "legacy_emitted (legacy_checkNotifications (Num (1 / 2)) 0) (legacy_new [] None True) =
     [AlertBox ''500m remaining'', SetNotified ''500m'']"
    unfolding legacy_emitted_eq e
    by (simp add: legacy_fire_events_def)
  from c l show ?thesis
    by (simp add: before_mark_def)
qed


section \<open>The channels of an alert\<close>

lemma show_emitted: "emitted (NotificationSystem_show m ty dur imp) w = show_events m ty dur imp"
  by (simp add: emitted_def show_eq)

lemma channels_show:
  "list_ex is_inapp (show_events m ty dur imp)"
  "list_ex is_native (show_events m ty dur imp) = imp"
  "list_ex is_vibrate (show_events m ty dur imp) = imp"
  "list_ex is_sound (show_events m ty dur imp) = (imp \<and> str_includes m ''arrived'')"
  by (simp_all add: show_events_def)

lemma channels_stop:
  "\<not> list_ex is_native (stop_events w)"
  "\<not> list_ex is_vibrate (stop_events w)"
  "\<not> list_ex is_sound (stop_events w)"
  by (simp_all add: stop_events_def clear_events_def split: option.splits)

lemma channels_fire:
  "list_ex is_inapp (fire_events t d now w)"
  "list_ex is_native (fire_events t d now w) = (t \<noteq> Approaching)"
  "list_ex is_vibrate (fire_events t d now w) = (t \<noteq> Approaching)"
  "list_ex is_sound (fire_events t d now w) = (t = Arrived)"
  by (cases t;
      simp add: fire_events_def arrival_events_def channels_show channels_stop
        includes_arrived not_includes_arrived)+

text \<open>
  Claim C6, as the code has it.  \<open>show\<close> always puts the banner on screen; when the call is
  marked important it also asks for the system notification and the vibration, and
  plays the sound when the message contains "arrived".  Of the four threshold alerts,
  \<open>Arrived\<close>, \<open>Close\<close> and \<open>Near\<close> are sent as important and \<open>Approaching\<close> as a banner
  only; the sound plays for \<open>Arrived\<close> only.
\<close>

theorem alert_channels_by_threshold:
  "emitted (NotificationSystem_show m ty dur imp) w =
     InApp m ty dur #
     (if imp
      then [Native m ty, Vibrate ty] @ (if str_includes m ''arrived'' then [PlaySound] else [])
      else [])
   \<and> (evaluate d (notified w) = Some t \<longrightarrow>
        list_ex is_inapp (emitted (checkNotifications_at d now tid) w) \<and>
        list_ex is_native (emitted (checkNotifications_at d now tid) w) = (t \<noteq> Approaching) \<and>
        list_ex is_vibrate (emitted (checkNotifications_at d now tid) w) = (t \<noteq> Approaching) \<and>
        list_ex is_sound (emitted (checkNotifications_at d now tid) w) = (t = Arrived))"
  by (simp add: show_emitted show_events_def checkNotifications_at_emitted channels_fire)

theorem alert_channels_by_threshold_witness:
  "evaluate (Num 0) (notified (AppState_new False [] None)) = Some Arrived
   \<and> list_ex is_native (emitted (checkNotifications_at (Num 0) 0 []) (AppState_new False [] None))
   \<and> list_ex is_sound (emitted (checkNotifications_at (Num 0) 0 []) (AppState_new False [] None))"
proof -
  have h: "evaluate (Num 0) (notified (AppState_new False [] None)) = Some Arrived"
    by (simp add: evaluate_def strict_to_loose_def jlt_def flagged_def AppState_new_def)
  from h alert_channels_by_threshold
      [of "[]" Info 0 False "AppState_new False [] None" "Num 0" Arrived 0 "[]"]
  show ?thesis by simp
qed

text \<open>
  The claim as written has \<open>Near\<close> as a banner only.  At 0.9 km and no flag set the
  call fires \<open>Near\<close> and asks for the system notification and the vibration as well.
\<close>

theorem near_alert_is_important_counterexample:
  "evaluate (Num (9 / 10)) (notified (AppState_new False [] None)) = Some Near
   \<and> emitted (checkNotifications_at (Num (9 / 10)) 0 []) (AppState_new False [] None) =
       [InApp ''1 kilometer remaining to destination'' Info 4000,
        Native ''1 kilometer remaining to destination'' Info,
        Vibrate Info,
        SetNotified ''1km'']"
proof -
  have e: "evaluate (Num (9 / 10)) (notified (AppState_new False [] None)) = Some Near"
    by (simp add: evaluate_def strict_to_loose_def jlt_def flagged_def AppState_new_def)
  then show ?thesis
    by (simp add: checkNotifications_at_emitted fire_events_def show_events_def
        not_includes_arrived durations_medium_def)
qed

section \<open>The frame of stopTracking\<close>

lemma stop_events_stopped: "stop_events (stopTracking w) = []"
  by (cases "watchId w")
    (simp_all add: stopTracking_eq stop_events_def clear_events_def)

text \<open>
  Claim C9.  \<open>stopTracking\<close> sets \<open>isTracking\<close> to false, clears a live watch and its
  identifier, and releases the wake lock; the flags, the destination coordinates, the
  start time, the trip log and the stored destination stay as they were.  A second call
  changes nothing at all.
\<close>

theorem stopTracking_frame_idempotent:
  "stopTracking w =
     w\<lparr>isTracking := False,
       watchId := (if truthy_id (watchId w) then None else watchId w),
       watches := cleared (watchId w) (watches w),
       wakeLock := False,
       trace := trace w @ stop_events w\<rparr>
   \<and> notified (stopTracking w) = notified w
   \<and> destLat (stopTracking w) = destLat w
   \<and> destLng (stopTracking w) = destLng w
   \<and> trackingStartTime (stopTracking w) = trackingStartTime w
   \<and> tripHistory (stopTracking w) = tripHistory w
   \<and> destination (stopTracking w) = destination w
   \<and> stopTracking (stopTracking w) = stopTracking w"
proof -
  have i: "stopTracking (stopTracking w) = stopTracking w"
    by (subst stopTracking_eq [of "stopTracking w"], simp only: stop_events_stopped)
      (cases w; cases "watchId w"; simp add: stopTracking_eq cleared_def)
  have f: "notified (stopTracking w) = notified w" "destLat (stopTracking w) = destLat w"
    "destLng (stopTracking w) = destLng w"
    "trackingStartTime (stopTracking w) = trackingStartTime w"
    "tripHistory (stopTracking w) = tripHistory w" "destination (stopTracking w) = destination w"
    by (simp_all add: stopTracking_eq)
  from i f stopTracking_eq [of w] show ?thesis
    by (simp only: simp_thms)
qed

section \<open>The trip log\<close>

text \<open>
  \<open>StorageService.saveTripHistory\<close> of \<^verbatim>\<open>new.js\<close> puts the new record at the front of the
  log and keeps at most 100 records.  On a log of 100 records the result again has 100
  records: the new one first, then the old ones without the last.
\<close>

theorem saveTripHistory_front_capped:
  "tripHistory (saveTripHistory dest d dur now tid w) =
     take maxTrips
       (\<lparr>trip_id = tid, trip_destination = dest, trip_distance = parseFloat_toFixed2 d,
         trip_duration = dur, trip_timestamp = now\<rparr> # tripHistory w)
   \<and> hd (tripHistory (saveTripHistory dest d dur now tid w)) =
       \<lparr>trip_id = tid, trip_destination = dest, trip_distance = parseFloat_toFixed2 d,
        trip_duration = dur, trip_timestamp = now\<rparr>
   \<and> length (tripHistory (saveTripHistory dest d dur now tid w)) \<le> 100
   \<and> (length (tripHistory w) < 100 \<longrightarrow>
        tripHistory (saveTripHistory dest d dur now tid w) =
          \<lparr>trip_id = tid, trip_destination = dest, trip_distance = parseFloat_toFixed2 d,
           trip_duration = dur, trip_timestamp = now\<rparr> # tripHistory w)
   \<and> (length (tripHistory w) = 100 \<longrightarrow>
        length (tripHistory (saveTripHistory dest d dur now tid w)) = 100 \<and>
        tripHistory (saveTripHistory dest d dur now tid w) =
          \<lparr>trip_id = tid, trip_destination = dest, trip_distance = parseFloat_toFixed2 d,
           trip_duration = dur, trip_timestamp = now\<rparr> # butlast (tripHistory w))"
proof -
  let ?new = "\<lparr>trip_id = tid, trip_destination = dest, trip_distance = parseFloat_toFixed2 d,
         trip_duration = dur, trip_timestamp = now\<rparr>"
  have t: "tripHistory (saveTripHistory dest d dur now tid w) =
      take maxTrips (?new # tripHistory w)"
    by (simp add: saveTripHistory_eq)
  have c: "take maxTrips (?new # tripHistory w) = ?new # take 99 (tripHistory w)"
    by (simp add: maxTrips_def take_Cons')
  have b: "length (tripHistory w) = 100 \<longrightarrow> take 99 (tripHistory w) = butlast (tripHistory w)"
    by (simp add: butlast_conv_take)
  show ?thesis
    unfolding t c using b by simp
qed

theorem saveTripHistory_front_capped_witness:
  "length (tripHistory (AppState_new False
      (replicate 100 \<lparr>trip_id = [], trip_destination = None, trip_distance = Num 0,
         trip_duration = 0, trip_timestamp = 0\<rparr>) None)) = 100
   \<and> length (tripHistory (saveTripHistory (Some ''Galle'') (Num (1 / 4)) 12 7 ''id''
       (AppState_new False
         (replicate 100 \<lparr>trip_id = [], trip_destination = None, trip_distance = Num 0,
            trip_duration = 0, trip_timestamp = 0\<rparr>) None))) = 100
   \<and> trip_id (hd (tripHistory (saveTripHistory (Some ''Galle'') (Num (1 / 4)) 12 7 ''id''
       (AppState_new False
         (replicate 100 \<lparr>trip_id = [], trip_destination = None, trip_distance = Num 0,
            trip_duration = 0, trip_timestamp = 0\<rparr>) None)))) = ''id''"
proof -
  let ?w = "AppState_new False
      (replicate 100 \<lparr>trip_id = [], trip_destination = None, trip_distance = Num 0,
         trip_duration = 0, trip_timestamp = 0\<rparr>) None"
  have h: "length (tripHistory ?w) = 100"
    by (simp add: AppState_new_def)
  note t = saveTripHistory_front_capped [of "Some ''Galle''" "Num (1 / 4)" 12 7 "''id''" ?w]
  from t h have l: "length (tripHistory (saveTripHistory (Some ''Galle'') (Num (1 / 4)) 12 7 ''id'' ?w))
      = 100"
    by blast
  from t have "hd (tripHistory (saveTripHistory (Some ''Galle'') (Num (1 / 4)) 12 7 ''id'' ?w)) =
       \<lparr>trip_id = ''id'', trip_destination = Some ''Galle'',
        trip_distance = parseFloat_toFixed2 (Num (1 / 4)),
        trip_duration = 12, trip_timestamp = 7\<rparr>"
    by blast
  then have i: "trip_id (hd (tripHistory (saveTripHistory (Some ''Galle'') (Num (1 / 4)) 12 7 ''id'' ?w)))
      = ''id''"
    by (simp only: trip.simps)
  from h l i show ?thesis
    by (simp only: simp_thms)
qed


text \<open>
  Claim C7 fails on \<^verbatim>\<open>script.js\<close>.  Its \<open>saveTripHistory\<close> puts the new record at the end of
  the log and never shortens it: a log of 100 records becomes one of 101, the oldest
  still first and the new one last.
\<close>

theorem legacy_saveTripHistory_appends_uncapped:
  "l_trips (legacy_saveTripHistory dest d now s) =
     l_trips s @ [\<lparr>lt_destination = dest, lt_distance = toFixed2 d, lt_time = now\<rparr>]
   \<and> length (l_trips (legacy_saveTripHistory dest d now s)) = Suc (length (l_trips s))
   \<and> length (l_trips (legacy_saveTripHistory (Some ''Galle'') (Num (1 / 4)) 7
        (legacy_new
          (replicate 100 \<lparr>lt_destination = None, lt_distance = ''0.00'', lt_time = 0\<rparr>)
          None False))) = 101
   \<and> last (l_trips (legacy_saveTripHistory (Some ''Galle'') (Num (1 / 4)) 7
        (legacy_new
          (replicate 100 \<lparr>lt_destination = None, lt_distance = ''0.00'', lt_time = 0\<rparr>)
          None False))) =
       \<lparr>lt_destination = Some ''Galle'', lt_distance = toFixed2 (Num (1 / 4)), lt_time = 7\<rparr>"
  by (simp add: legacy_saveTripHistory_def legacy_new_def)

section \<open>An unset destination and a distance that is not a number\<close>

lemma haversine_null: "haversine lat lng Null Null = haversine lat lng (coord 0) (coord 0)"
  by (simp add: haversine_def deg2rad_def)

lemma haversine_NaN:
  assumes "ToNumber lat1 = NaN \<or> ToNumber lon1 = NaN \<or> ToNumber lat2 = NaN \<or> ToNumber lon2 = NaN"
  shows "haversine lat1 lon1 lat2 lon2 = NaN"
  using assms
  by (cases "ToNumber lat1"; cases "ToNumber lon1"; cases "ToNumber lat2"; cases "ToNumber lon2")
    (simp_all add: haversine_def deg2rad_def jadd_def jsub_def jmul_def jdiv_def jsq_def
      Math_sin_def Math_cos_def Math_atan2_def Math_PI_def Let_def)

lemma evaluate_NaN: "evaluate NaN n = None"
  by (simp add: evaluate_def strict_to_loose_def jlt_def)

text \<open>
  Claim C5, as the code has it.  A distance that is \<open>NaN\<close> fires nothing: the call leaves
  the state as it was, and so does \<open>checkNotifications\<close> when a coordinate of the position
  or of the destination is \<open>NaN\<close>.  An unset destination is not rejected: its \<^verbatim>\<open>null\<close>
  coordinates count as 0 and the thresholds are tested on the distance to (0, 0).
\<close>

theorem checkNotifications_NaN_unchanged:
  "checkNotifications_at NaN now tid w = w
   \<and> emitted (checkNotifications_at NaN now tid) w = []
   \<and> (lat = Number NaN \<or> lng = Number NaN \<or> destLat w = Number NaN \<or> destLng w = Number NaN
        \<longrightarrow> checkNotifications lat lng now tid w = w)
   \<and> (destLat w = Null \<and> destLng w = Null \<longrightarrow>
        checkNotifications lat lng now tid w =
          checkNotifications_at (haversine lat lng (coord 0) (coord 0)) now tid w)"
proof -
  have n: "checkNotifications_at NaN now tid w = w"
    by (simp add: checkNotifications_at_None evaluate_NaN)
  have e: "emitted (checkNotifications_at NaN now tid) w = []"
    by (simp add: checkNotifications_at_emitted evaluate_NaN)
  have c: "lat = Number NaN \<or> lng = Number NaN \<or> destLat w = Number NaN \<or> destLng w = Number NaN
        \<longrightarrow> checkNotifications lat lng now tid w = w"
  proof
    assume "lat = Number NaN \<or> lng = Number NaN \<or> destLat w = Number NaN \<or> destLng w = Number NaN"
    then have "haversine lat lng (destLat w) (destLng w) = NaN"
      by (intro haversine_NaN) auto
    then show "checkNotifications lat lng now tid w = w"
      by (simp add: checkNotifications_def n)
  qed
  have u: "destLat w = Null \<and> destLng w = Null \<longrightarrow>
        checkNotifications lat lng now tid w =
          checkNotifications_at (haversine lat lng (coord 0) (coord 0)) now tid w"
    by (simp add: checkNotifications_def haversine_null)
  from n e c u show ?thesis
    by (simp only: simp_thms)
qed

theorem checkNotifications_NaN_unchanged_witness:
  "destLat ((AppState_new False [] None)\<lparr>destLat := Number NaN\<rparr>) = Number NaN
   \<and> checkNotifications (coord 0) (coord 0) 0 [] ((AppState_new False [] None)\<lparr>destLat := Number NaN\<rparr>)
       = (AppState_new False [] None)\<lparr>destLat := Number NaN\<rparr>
   \<and> destLat (AppState_new False [] None) = Null \<and> destLng (AppState_new False [] None) = Null
   \<and> checkNotifications (coord 7) (coord 80) 0 [] (AppState_new False [] None) =
       checkNotifications_at (haversine (coord 7) (coord 80) (coord 0) (coord 0)) 0 []
         (AppState_new False [] None)"
proof -
  have h1: "destLat ((AppState_new False [] None)\<lparr>destLat := Number NaN\<rparr>) = Number NaN"
    by simp
  have h2: "destLat (AppState_new False [] None) = Null \<and> destLng (AppState_new False [] None) = Null"
    by (simp add: AppState_new_def)
  from h1 h2
    checkNotifications_NaN_unchanged
      [of 0 "[]" "(AppState_new False [] None)\<lparr>destLat := Number NaN\<rparr>" "coord 0" "coord 0"]
    checkNotifications_NaN_unchanged
      [of 0 "[]" "AppState_new False [] None" "coord 7" "coord 80"]
  show ?thesis by blast
qed

text \<open>
  The claim as written has an unset destination fire nothing.  On a fresh state, whose
  destination is still \<^verbatim>\<open>null\<close>, a position at latitude 0 and longitude 0 is at distance 0
  and fires \<open>Arrived\<close>.
\<close>

theorem checkNotifications_unset_destination_counterexample:
  "destLat (AppState_new False [] None) = Null
   \<and> destLng (AppState_new False [] None) = Null
   \<and> alerts (emitted (checkNotifications (coord 0) (coord 0) 0 []) (AppState_new False [] None))
       = [Arrived]
   \<and> flagged (notified (checkNotifications (coord 0) (coord 0) 0 [] (AppState_new False [] None)))
       ''arrived''"
proof -
  let ?w = "AppState_new False [] None"
  have d: "destLat ?w = Null" "destLng ?w = Null"
    by (simp_all add: AppState_new_def)
  have h: "haversine (coord 0) (coord 0) Null Null = Num 0"
    by (simp add: haversine_null haversine_coord hav_km_same)
  have c: "checkNotifications (coord 0) (coord 0) 0 [] ?w = checkNotifications_at (Num 0) 0 [] ?w"
    by (simp add: checkNotifications_def d h)
  have e: "evaluate (Num 0) (notified ?w) = Some Arrived"
    by (simp add: evaluate_def strict_to_loose_def jlt_def flagged_def AppState_new_def)
  have em: "emitted (checkNotifications (coord 0) (coord 0) 0 []) ?w =
      emitted (checkNotifications_at (Num 0) 0 []) ?w"
    by (simp add: emitted_def c)
  have "alerts (emitted (checkNotifications (coord 0) (coord 0) 0 []) ?w) = [Arrived]"
    by (simp add: em checkNotifications_at_emitted e alerts_fire)
  moreover have "flagged (notified (checkNotifications (coord 0) (coord 0) 0 [] ?w)) ''arrived''"
    by (simp add: c checkNotifications_at_notified e flagged_def)
  ultimately show ?thesis
    using d by (simp only: simp_thms)
qed

section \<open>The distance to an unset destination\<close>























section \<open>A loaded page over time\<close>

lemma handlePositionUpdate_eq:
  "handlePositionUpdate lat lng now tid w =
     checkNotifications_at (haversine (Number lat) (Number lng) (destLat w) (destLng w)) now tid w"
  by (simp add: handlePositionUpdate_def checkNotifications_def)

lemma beforeUnload_eq: "releaseWakeLock (stopTracking w) = stopTracking w"
  by (simp add: releaseWakeLock_def stopTracking_eq)

lemma trackDestination_eq:
  "trackDestination lat lon n now w =
     w\<lparr>destLat := Number lat, destLng := Number lon, isTracking := True, watchId := Some n,
       watches := insert n (cleared (watchId w) (watches w)),
       trackingStartTime := Some now,
       trace := trace w @ clear_events (watchId w) @ [WatchPosition n] @
         show_events ''Tracking started successfully!'' Success durations_short True\<rparr>"
  by (cases w) (simp add: trackDestination_def startPositionTracking_eq show_eq emit_def)

lemma flagged_upd: "flagged (n(k \<mapsto> True)) k' = (k' = k \<or> flagged n k')"
  by (simp add: flagged_def)

lemma key_inj: "key a = key b \<longleftrightarrow> a = b"
  by (cases a; cases b) simp_all

lemma key_arrived:
  "key t = ''arrived'' \<longleftrightarrow> t = Arrived"
  "''arrived'' = key t \<longleftrightarrow> t = Arrived"
  by (cases t; simp)+

lemma fired_once_frame:
  assumes "fired_once w" "trace w' = trace w @ es" "marks es = []" "alerts es = []"
    "notified w' = notified w"
  shows "fired_once w'"
  using assms by (simp add: fired_once_def marks_append alerts_append)

lemma fired_once_check:
  assumes "fired_once w"
  shows "fired_once (checkNotifications_at d now tid w)"
proof (cases "evaluate d (notified w)")
  case None
  with assms show ?thesis by (simp add: checkNotifications_at_None)
next
  case (Some t)
  then have nf: "\<not> flagged (notified w) (key t)"
    by (rule evaluate_unflagged)
  from assms nf have k: "key t \<notin> set (marks (trace w))"
    by (auto simp: fired_once_def list_all_iff)
  from assms nf have a: "t \<notin> set (alerts (trace w))"
    by (auto simp: fired_once_def list_all_iff)
  from assms k a show ?thesis
    by (auto simp: fired_once_def checkNotifications_at_trace checkNotifications_at_notified Some
        marks_append alerts_append marks_fire alerts_fire list_all_iff flagged_upd)
qed

lemma step_fired_once:
  assumes "x \<noteq> Reset" "fired_once w"
  shows "fired_once (step x w)"
proof (cases x)
  case (PositionUpdate lat lng now tid)
  with assms show ?thesis
    by (simp add: handlePositionUpdate_eq fired_once_check)
next
  case BeforeUnload
  have "fired_once (stopTracking w)"
    by (rule fired_once_frame [OF assms(2), where es = "stop_events w"])
      (simp_all add: stopTracking_eq)
  with BeforeUnload show ?thesis
    by (simp add: beforeUnload_eq)
next
  case (VisibilityVisible n)
  have "fired_once (startPositionTracking n w)"
    by (rule fired_once_frame
        [OF assms(2), where es = "clear_events (watchId w) @ [WatchPosition n]"])
      (simp_all add: startPositionTracking_eq marks_append alerts_append)
  with VisibilityVisible assms show ?thesis
    by simp
next
  case Reset
  with assms show ?thesis by simp
qed

lemma run_fired_once: "Reset \<notin> set ops \<Longrightarrow> fired_once w \<Longrightarrow> fired_once (run ops w)"
proof (induction ops arbitrary: w)
  case Nil
  then show ?case by simp
next
  case (Cons x xs)
  then have "x \<noteq> Reset" "Reset \<notin> set xs"
    by auto
  with Cons show ?case
    by (simp add: step_fired_once)
qed

lemma fired_once_start: "fired_once (trackDestination lat lon n now (AppState_new wl trips dest))"
  by (simp add: fired_once_def trackDestination_eq AppState_new_def marks_append alerts_append
      alerts_show)

lemma step_flagged_mono:
  assumes "x \<noteq> Reset" "flagged (notified w) k"
  shows "flagged (notified (step x w)) k"
proof (cases x)
  case (PositionUpdate lat lng now tid)
  with assms show ?thesis
    by (simp add: handlePositionUpdate_eq checkNotifications_at_notified flagged_upd
        split: option.splits)
next
  case BeforeUnload
  then have "step x w = stopTracking w"
    by (simp add: beforeUnload_eq)
  with assms show ?thesis
    by (simp add: stopTracking_eq)
next
  case (VisibilityVisible n)
  with assms show ?thesis
    by (simp add: startPositionTracking_eq)
next
  case Reset
  with assms show ?thesis by simp
qed

lemma run_flagged_mono:
  "Reset \<notin> set ops \<Longrightarrow> flagged (notified w) k \<Longrightarrow> flagged (notified (run ops w)) k"
proof (induction ops arbitrary: w)
  case Nil
  then show ?case by simp
next
  case (Cons x xs)
  then have "x \<noteq> Reset" "Reset \<notin> set xs"
    by auto
  with Cons show ?case
    by (simp add: step_flagged_mono)
qed

lemma no_refire:
  assumes "flagged (notified w) (key t)"
  shows "t \<notin> set (alerts (emitted (checkNotifications_at d now tid) w)) \<and>
    key t \<notin> set (marks (emitted (checkNotifications_at d now tid) w))"
proof (cases "evaluate d (notified w)")
  case None
  then show ?thesis by (simp add: checkNotifications_at_emitted)
next
  case (Some t')
  with assms have "t' \<noteq> t"
    using evaluate_unflagged [of d "notified w" t'] by auto
  with Some show ?thesis
    by (simp add: checkNotifications_at_emitted alerts_fire marks_fire key_inj)
qed

text \<open>
  Claim C3.  No call other than \<open>reset\<close> unsets a flag: through any sequence of position
  samples, page unloads and returns to the foreground, a flag that is set stays set.
  From the start of tracking on, each flag is written at most once and each threshold
  alert is shown at most once; a call of \<open>checkNotifications\<close> neither alerts for nor
  rewrites a threshold whose flag is set, whatever the distance.  \<open>reset\<close> clears all
  flags.
\<close>

theorem notified_grows_each_once:
  "Reset \<notin> set ops \<Longrightarrow>
     (flagged (notified w) k \<longrightarrow> flagged (notified (run ops w)) k)
   \<and> distinct (marks (trace (run ops
        (trackDestination lat lon wid now0 (AppState_new wl trips dest)))))
   \<and> distinct (alerts (trace (run ops
        (trackDestination lat lon wid now0 (AppState_new wl trips dest)))))
   \<and> (flagged (notified w) (key t) \<longrightarrow>
        t \<notin> set (alerts (emitted (checkNotifications_at d now tid) w)) \<and>
        key t \<notin> set (marks (emitted (checkNotifications_at d now tid) w)))
   \<and> notified (reset w) = Map.empty"
proof -
  assume r: "Reset \<notin> set ops"
  let ?w0 = "trackDestination lat lon wid now0 (AppState_new wl trips dest)"
  from r have "fired_once (run ops ?w0)"
    by (intro run_fired_once fired_once_start)
  then have d: "distinct (marks (trace (run ops ?w0)))" "distinct (alerts (trace (run ops ?w0)))"
    by (simp_all add: fired_once_def)
  have z: "notified (reset w) = Map.empty"
    by (simp add: reset_eq)
  from d z run_flagged_mono [OF r, of w k] no_refire [of w t d now tid]
  show ?thesis by blast
qed

theorem notified_grows_each_once_witness:
  "Reset \<notin> set [PositionUpdate (Num 0) (Num 0) 60000 ''t1'', BeforeUnload, VisibilityVisible 2,
      PositionUpdate (Num 0) (Num 0) 90000 ''t2'']
   \<and> flagged (notified ((AppState_new False [] None)\<lparr>notified := [''1km'' \<mapsto> True]\<rparr>)) (key Near)
   \<and> flagged (notified (run [PositionUpdate (Num 0) (Num 0) 60000 ''t1'', BeforeUnload,
        VisibilityVisible 2, PositionUpdate (Num 0) (Num 0) 90000 ''t2'']
        ((AppState_new False [] None)\<lparr>notified := [''1km'' \<mapsto> True]\<rparr>))) (key Near)
   \<and> distinct (marks (trace (run [PositionUpdate (Num 0) (Num 0) 60000 ''t1'', BeforeUnload,
        VisibilityVisible 2, PositionUpdate (Num 0) (Num 0) 90000 ''t2'']
        (trackDestination (Num 0) (Num 0) 1 0 (AppState_new False [] None)))))
   \<and> Near \<notin> set (alerts (emitted (checkNotifications_at (Num (9 / 10)) 0 [])
        ((AppState_new False [] None)\<lparr>notified := [''1km'' \<mapsto> True]\<rparr>)))"
proof -
  let ?ops = "[PositionUpdate (Num 0) (Num 0) 60000 ''t1'', BeforeUnload, VisibilityVisible 2,
      PositionUpdate (Num 0) (Num 0) 90000 ''t2'']"
  let ?w = "(AppState_new False [] None)\<lparr>notified := [''1km'' \<mapsto> True]\<rparr>"
  have h: "Reset \<notin> set ?ops"
    by simp
  have f: "flagged (notified ?w) (key Near)"
    by (simp add: flagged_def)
  from f notified_grows_each_once
      [OF h, of ?w "key Near" "Num 0" "Num 0" 1 0 False "[]" None Near "Num (9 / 10)" 0 "[]"]
  show ?thesis
    using h by blast
qed

section \<open>Arrival\<close>

lemma arrived_inactive_check:
  assumes "arrived_inactive w"
  shows "arrived_inactive (checkNotifications_at d now tid w)"
proof (cases "evaluate d (notified w)")
  case None
  with assms show ?thesis by (simp add: checkNotifications_at_None)
next
  case (Some t)
  show ?thesis
  proof (cases "t = Arrived")
    case True
    with Some have "checkNotifications_at d now tid w = handleArrival d now tid w"
      by (simp add: checkNotifications_at_Arrived)
    with assms show ?thesis
      by (cases "watchId w") (auto simp: arrived_inactive_def handleArrival_eq cleared_def)
  next
    case False
    with Some assms show ?thesis
      by (simp add: checkNotifications_at_other arrived_inactive_def flagged_upd key_arrived)
  qed
qed

lemma step_arrived_inactive:
  assumes "op_ok x" "arrived_inactive w"
  shows "arrived_inactive (step x w)"
proof (cases x)
  case (PositionUpdate lat lng now tid)
  with assms show ?thesis
    by (simp add: handlePositionUpdate_eq arrived_inactive_check)
next
  case BeforeUnload
  then have "step x w = stopTracking w"
    by (simp add: beforeUnload_eq)
  with assms show ?thesis
    by (cases "watchId w") (auto simp: stopTracking_eq arrived_inactive_def cleared_def)
next
  case (VisibilityVisible n)
  with assms show ?thesis
    by (cases "watchId w")
      (auto simp: startPositionTracking_eq arrived_inactive_def cleared_def)
next
  case Reset
  with assms show ?thesis
    by (cases "watchId w") (auto simp: reset_eq arrived_inactive_def cleared_def flagged_def)
qed

lemma run_arrived_inactive:
  "list_all op_ok ops \<Longrightarrow> arrived_inactive w \<Longrightarrow> arrived_inactive (run ops w)"
  by (induction ops arbitrary: w) (simp_all add: step_arrived_inactive)

lemma arrived_inactive_start:
  "0 < n \<Longrightarrow> arrived_inactive (trackDestination lat lon n now (AppState_new wl trips dest))"
  by (simp add: arrived_inactive_def trackDestination_eq AppState_new_def cleared_def flagged_def)

lemma arrival_stores_once:
  "length (filter (\<lambda>e. e = StoreTrips) (arrival_events d now w)) = 1"
  by (simp add: arrival_events_def show_events_def stop_events_def clear_events_def
      split: option.splits)

lemma other_stores_nothing:
  "t \<noteq> Arrived \<Longrightarrow> filter (\<lambda>e. e = StoreTrips) (fire_events t d now w) = []"
  by (cases t) (simp_all add: fire_events_def show_events_def)

text \<open>
  In \<^verbatim>\<open>new.js\<close>, when \<open>checkNotifications\<close> fires \<open>Arrived\<close>, the same call writes the
  trip log once, with one new record at its front, sets the flag, and stops tracking:
  \<open>isTracking\<close> is false, no watch identifier is left and the wake lock is released.  A
  call that does not fire \<open>Arrived\<close> leaves the trip log alone.  In every state that a
  tracking page reaches, if the flag \<open>arrived\<close> is set then \<open>isTracking\<close> is false, the watch
  identifier is \<^verbatim>\<open>null\<close> and no watch is registered.
\<close>

theorem arrival_records_trip_and_stops:
  "(evaluate d (notified w) = Some Arrived \<longrightarrow>
      tripHistory (checkNotifications_at d now tid w) =
        take maxTrips (new_trip d now tid w # tripHistory w)
      \<and> length (filter (\<lambda>e. e = StoreTrips) (emitted (checkNotifications_at d now tid) w)) = 1
      \<and> flagged (notified (checkNotifications_at d now tid w)) ''arrived''
      \<and> \<not> isTracking (checkNotifications_at d now tid w)
      \<and> \<not> truthy_id (watchId (checkNotifications_at d now tid w))
      \<and> \<not> wakeLock (checkNotifications_at d now tid w))
   \<and> (evaluate d (notified w) \<noteq> Some Arrived \<longrightarrow>
      tripHistory (checkNotifications_at d now tid w) = tripHistory w
      \<and> filter (\<lambda>e. e = StoreTrips) (emitted (checkNotifications_at d now tid) w) = [])
   \<and> (list_all op_ok ops \<and> 0 < wid \<and>
      flagged (notified (run ops
        (trackDestination lat lon wid now0 (AppState_new wl trips dest)))) ''arrived'' \<longrightarrow>
      \<not> isTracking (run ops (trackDestination lat lon wid now0 (AppState_new wl trips dest)))
      \<and> watchId (run ops (trackDestination lat lon wid now0 (AppState_new wl trips dest))) = None
      \<and> watches (run ops (trackDestination lat lon wid now0 (AppState_new wl trips dest))) = {})"
proof (intro conjI impI)
  assume e: "evaluate d (notified w) = Some Arrived"
  then have c: "checkNotifications_at d now tid w = handleArrival d now tid w"
    by (rule checkNotifications_at_Arrived)
  show "tripHistory (checkNotifications_at d now tid w) =
      take maxTrips (new_trip d now tid w # tripHistory w)"
    "flagged (notified (checkNotifications_at d now tid w)) ''arrived''"
    "\<not> isTracking (checkNotifications_at d now tid w)"
    "\<not> wakeLock (checkNotifications_at d now tid w)"
    by (simp_all add: c handleArrival_eq flagged_def)
  show "\<not> truthy_id (watchId (checkNotifications_at d now tid w))"
    by (cases "watchId w") (simp_all add: c handleArrival_eq)
  from e show "length (filter (\<lambda>e. e = StoreTrips) (emitted (checkNotifications_at d now tid) w)) = 1"
    by (simp add: checkNotifications_at_emitted fire_events_def arrival_stores_once)
next
  assume n: "evaluate d (notified w) \<noteq> Some Arrived"
  show "tripHistory (checkNotifications_at d now tid w) = tripHistory w"
  proof (cases "evaluate d (notified w)")
    case None
    then show ?thesis by (simp add: checkNotifications_at_None)
  next
    case (Some t)
    with n show ?thesis by (simp add: checkNotifications_at_other)
  qed
  from n show "filter (\<lambda>e. e = StoreTrips) (emitted (checkNotifications_at d now tid) w) = []"
    by (cases "evaluate d (notified w)")
      (simp_all add: checkNotifications_at_emitted other_stores_nothing)
next
  let ?w = "run ops (trackDestination lat lon wid now0 (AppState_new wl trips dest))"
  assume a: "list_all op_ok ops \<and> 0 < wid \<and> flagged (notified ?w) ''arrived''"
  then have "arrived_inactive ?w"
    by (intro run_arrived_inactive arrived_inactive_start) simp_all
  with a show "\<not> isTracking ?w" "watchId ?w = None" "watches ?w = {}"
    by (simp_all add: arrived_inactive_def)
qed

theorem arrival_records_trip_and_stops_witness:
  "list_all op_ok [PositionUpdate (Num 0) (Num 0) 60000 ''t1'']
   \<and> (0 :: nat) < 5
   \<and> evaluate (Num 0)
        (notified (trackDestination (Num 0) (Num 0) 5 0 (AppState_new True [] (Some ''Galle''))))
        = Some Arrived
   \<and> length (filter (\<lambda>e. e = StoreTrips)
        (emitted (checkNotifications_at (Num 0) 60000 ''t1'')
          (trackDestination (Num 0) (Num 0) 5 0 (AppState_new True [] (Some ''Galle''))))) = 1
   \<and> flagged (notified (run [PositionUpdate (Num 0) (Num 0) 60000 ''t1'']
        (trackDestination (Num 0) (Num 0) 5 0 (AppState_new True [] (Some ''Galle''))))) ''arrived''
   \<and> \<not> isTracking (run [PositionUpdate (Num 0) (Num 0) 60000 ''t1'']
        (trackDestination (Num 0) (Num 0) 5 0 (AppState_new True [] (Some ''Galle''))))
   \<and> watchId (run [PositionUpdate (Num 0) (Num 0) 60000 ''t1'']
        (trackDestination (Num 0) (Num 0) 5 0 (AppState_new True [] (Some ''Galle'')))) = None
   \<and> watches (run [PositionUpdate (Num 0) (Num 0) 60000 ''t1'']
        (trackDestination (Num 0) (Num 0) 5 0 (AppState_new True [] (Some ''Galle'')))) = {}"
proof -
  let ?w0 = "trackDestination (Num 0) (Num 0) 5 0 (AppState_new True [] (Some ''Galle''))"
  let ?ops = "[PositionUpdate (Num 0) (Num 0) 60000 ''t1'']"
  have w0: "destLat ?w0 = coord 0" "destLng ?w0 = coord 0" "notified ?w0 = Map.empty"
    by (simp_all add: trackDestination_eq AppState_new_def)
  have r: "run ?ops ?w0 = checkNotifications_at (Num 0) 60000 ''t1'' ?w0"
    by (simp add: handlePositionUpdate_eq w0 haversine_coord hav_km_same)
  have e: "evaluate (Num 0) (notified ?w0) = Some Arrived"
    by (simp add: w0 evaluate_def strict_to_loose_def jlt_def flagged_def)
  have f: "flagged (notified (run ?ops ?w0)) ''arrived''"
    unfolding r by (simp add: checkNotifications_at_notified e flagged_def)
  have o: "list_all op_ok ?ops" "(0 :: nat) < 5"
    by simp_all
  from o e f arrival_records_trip_and_stops
      [of "Num 0" ?w0 60000 "''t1''" ?ops 5 "Num 0" "Num 0" 0 True "[]" "Some ''Galle''"]
  show ?thesis
    by blast
qed

text \<open>
  Claim C4 fails on \<^verbatim>\<open>script.js\<close>.  When its \<open>checkNotifications\<close> fires \<open>Arrived\<close> it
  alerts, appends one trip record and sets the flag, but stops nothing: neither it nor
  any later run of the timer's callback changes the number of timers registered, so the
  position is asked for every five seconds for as long as the page stays open.
\<close>

theorem legacy_arrival_keeps_polling:
  "(evaluate d (l_notified s) = Some Arrived \<longrightarrow>
      flagged (l_notified (legacy_checkNotifications d now s)) ''arrived''
      \<and> l_trips (legacy_checkNotifications d now s) =
          l_trips s @
          [\<lparr>lt_destination = l_destination s, lt_distance = toFixed2 d, lt_time = now\<rparr>])
   \<and> l_intervals (legacy_checkNotifications d now s) = l_intervals s
   \<and> l_intervals (legacy_poll lat lng now s) = l_intervals s
   \<and> l_intervals (legacy_trackDestination lat lon s) = Suc (l_intervals s)"
proof -
  have i: "l_intervals (legacy_checkNotifications x now s) = l_intervals s" for x
    by (simp add: legacy_checkNotifications_eq split: option.splits)
  have a: "evaluate d (l_notified s) = Some Arrived \<longrightarrow>
      flagged (l_notified (legacy_checkNotifications d now s)) ''arrived''
      \<and> l_trips (legacy_checkNotifications d now s) =
          l_trips s @
          [\<lparr>lt_destination = l_destination s, lt_distance = toFixed2 d, lt_time = now\<rparr>]"
    by (simp add: legacy_checkNotifications_eq flagged_def)
  have t: "l_intervals (legacy_trackDestination lat lon s) = Suc (l_intervals s)"
    by (simp add: legacy_trackDestination_def legacy_initMapWithTracking_def)
  from a i [of d] i [of "haversine (Number lat) (Number lng) (l_destLat s) (l_destLng s)"] t
  show ?thesis
    by (simp only: legacy_poll_def Let_def simp_thms)
qed

theorem legacy_arrival_keeps_polling_witness:
  "evaluate (Num 0)
     (l_notified (legacy_trackDestination (Num 0) (Num 0) (legacy_new [] (Some ''Galle'') True)))
     = Some Arrived
   \<and> flagged (l_notified (legacy_poll (Num 0) (Num 0) 5000
        (legacy_trackDestination (Num 0) (Num 0) (legacy_new [] (Some ''Galle'') True))))
        ''arrived''
   \<and> l_intervals (legacy_poll (Num 0) (Num 0) 5000
        (legacy_trackDestination (Num 0) (Num 0) (legacy_new [] (Some ''Galle'') True))) = 1"
proof -
  let ?s = "legacy_trackDestination (Num 0) (Num 0) (legacy_new [] (Some ''Galle'') True)"
  have s: "l_destLat ?s = coord 0" "l_destLng ?s = coord 0" "l_notified ?s = Map.empty"
    "l_intervals ?s = 1"
    by (simp_all add: legacy_trackDestination_def legacy_initMapWithTracking_def legacy_new_def)
  have e: "evaluate (Num 0) (l_notified ?s) = Some Arrived"
    by (simp add: s evaluate_def strict_to_loose_def jlt_def flagged_def)
  have p: "legacy_poll (Num 0) (Num 0) 5000 ?s = legacy_checkNotifications (Num 0) 5000 ?s"
    by (simp add: legacy_poll_def s haversine_coord hav_km_same)
  from e legacy_arrival_keeps_polling [of "Num 0" ?s 5000 "Num 0" "Num 0"]
  show ?thesis
    unfolding p by (simp add: s)
qed

end
